theory Spec2Isabelle
  imports Complex_Main "HOL-Library.Monad_Syntax" "HOL-Library.Signed_Division"
    "HOL-Library.Multiset"
begin

section \<open>Numbers, slices and loops\<close>

text \<open>
  The Go sources compute on \<^verbatim>\<open>float64\<close>. The model computes on \<^typ>\<open>real\<close>: rounding and
  overflow are not modelled, and Go's \<^verbatim>\<open>int\<close> is \<^typ>\<open>int\<close>. A float division by zero and the
  square root of a negative number give an infinity or a NaN in Go, which is no real number; a
  slice index out of range panics. Both are the value \<open>None\<close> of the model: the call gives no
  finite number.
\<close>

definition fdiv :: "real \<Rightarrow> real \<Rightarrow> real option" where
  "fdiv a b = (if b = 0 then None else Some (a / b))"

definition fsqrt :: "real \<Rightarrow> real option" where
  "fsqrt x = (if x < 0 then None else Some (sqrt x))"

text \<open>\<^verbatim>\<open>xs[i]\<close> read and written, with Go's bounds check.\<close>

definition slice_at :: "'a list \<Rightarrow> int \<Rightarrow> 'a option" where
  "slice_at xs i = (if 0 \<le> i \<and> i < int (length xs) then Some (xs ! nat i) else None)"

definition slice_set :: "'a list \<Rightarrow> int \<Rightarrow> 'a \<Rightarrow> 'a list option" where
  "slice_set xs i v = (if 0 \<le> i \<and> i < int (length xs) then Some (xs[nat i := v]) else None)"

text \<open>\<^verbatim>\<open>for i := a; i < n; i++ { body }\<close> on the loop's variables \<open>s\<close>.\<close>

function for_loop :: "int \<Rightarrow> int \<Rightarrow> (int \<Rightarrow> 's \<Rightarrow> 's option) \<Rightarrow> 's \<Rightarrow> 's option" where
  "for_loop i n body s =
     (if i < n then (case body i s of None \<Rightarrow> None | Some s' \<Rightarrow> for_loop (i + 1) n body s')
      else Some s)"
  by pat_completeness auto
termination
  by (relation "measure (\<lambda>(i, n, body, s). nat (n - i))") auto

declare for_loop.simps [simp del]

section \<open>Indicators (package market)\<close>

record Kline =
  OpenTime :: int
  Open :: real
  High :: real
  Low :: real
  Close :: real
  Volume :: real
  CloseTime :: int

definition CalculateEMA :: "Kline list \<Rightarrow> int \<Rightarrow> real option" where
  "CalculateEMA klines period =
     (if int (length klines) < period then Some 0
      else do {
        sum \<leftarrow> for_loop 0 period
                 (\<lambda>i sum. do { k \<leftarrow> slice_at klines i; Some (sum + Close k) }) 0;
        ema \<leftarrow> fdiv sum (real_of_int period);
        multiplier \<leftarrow> fdiv 2 (real_of_int (period + 1));
        for_loop period (int (length klines))
          (\<lambda>i ema. do { k \<leftarrow> slice_at klines i; Some ((Close k - ema) * multiplier + ema) }) ema
      })"

definition CalculateSMA :: "Kline list \<Rightarrow> int \<Rightarrow> real option" where
  "CalculateSMA klines period =
     (if int (length klines) < period then Some 0
      else do {
        sum \<leftarrow> for_loop (int (length klines) - period) (int (length klines))
                 (\<lambda>i sum. do { k \<leftarrow> slice_at klines i; Some (sum + Close k) }) 0;
        fdiv sum (real_of_int period)
      })"

definition CalculateRSI :: "Kline list \<Rightarrow> int \<Rightarrow> real option" where
  "CalculateRSI klines period =
     (if int (length klines) \<le> period then Some 0
      else do {
        (gains, losses) \<leftarrow> for_loop 1 (period + 1)
           (\<lambda>i (gains, losses). do {
              k \<leftarrow> slice_at klines i;
              k' \<leftarrow> slice_at klines (i - 1);
              let change = Close k - Close k';
              Some (if change > 0 then (gains + change, losses)
                    else (gains, losses + - change))
            }) (0, 0);
        avgGain \<leftarrow> fdiv gains (real_of_int period);
        avgLoss \<leftarrow> fdiv losses (real_of_int period);
        (avgGain, avgLoss) \<leftarrow> for_loop (period + 1) (int (length klines))
           (\<lambda>i (avgGain, avgLoss). do {
              k \<leftarrow> slice_at klines i;
              k' \<leftarrow> slice_at klines (i - 1);
              let change = Close k - Close k';
              if change > 0 then do {
                g \<leftarrow> fdiv (avgGain * real_of_int (period - 1) + change) (real_of_int period);
                l \<leftarrow> fdiv (avgLoss * real_of_int (period - 1)) (real_of_int period);
                Some (g, l)
              } else do {
                g \<leftarrow> fdiv (avgGain * real_of_int (period - 1)) (real_of_int period);
                l \<leftarrow> fdiv (avgLoss * real_of_int (period - 1) + (- change)) (real_of_int period);
                Some (g, l)
              }
            }) (avgGain, avgLoss);
        if avgLoss = 0 then Some 100
        else do {
          rs \<leftarrow> fdiv avgGain avgLoss;
          q \<leftarrow> fdiv 100 (1 + rs);
          Some (100 - q)
        }
      })"

definition CalculateATR :: "Kline list \<Rightarrow> int \<Rightarrow> real option" where
  "CalculateATR klines period =
     (if int (length klines) \<le> period then Some 0
      else do {
        trs \<leftarrow> for_loop 1 (int (length klines))
           (\<lambda>i trs. do {
              k \<leftarrow> slice_at klines i;
              k' \<leftarrow> slice_at klines (i - 1);
              let high = High k;
              let low = Low k;
              let prevClose = Close k';
              let tr1 = high - low;
              let tr2 = \<bar>high - prevClose\<bar>;
              let tr3 = \<bar>low - prevClose\<bar>;
              slice_set trs i (max tr1 (max tr2 tr3))
            }) (replicate (length klines) 0);
        sum \<leftarrow> for_loop 1 (period + 1)
                 (\<lambda>i sum. do { t \<leftarrow> slice_at trs i; Some (sum + t) }) 0;
        atr \<leftarrow> fdiv sum (real_of_int period);
        for_loop (period + 1) (int (length klines))
          (\<lambda>i atr. do {
             t \<leftarrow> slice_at trs i;
             fdiv (atr * real_of_int (period - 1) + t) (real_of_int period)
           }) atr
      })"

definition CalculateBOLL :: "Kline list \<Rightarrow> int \<Rightarrow> real \<Rightarrow> (real \<times> real \<times> real) option" where
  "CalculateBOLL klines period multiplier =
     (if int (length klines) < period then Some (0, 0, 0)
      else do {
        sum \<leftarrow> for_loop (int (length klines) - period) (int (length klines))
                 (\<lambda>i sum. do { k \<leftarrow> slice_at klines i; Some (sum + Close k) }) 0;
        sma \<leftarrow> fdiv sum (real_of_int period);
        variance \<leftarrow> for_loop (int (length klines) - period) (int (length klines))
                 (\<lambda>i variance. do {
                    k \<leftarrow> slice_at klines i;
                    let diff = Close k - sma;
                    Some (variance + diff * diff)
                  }) 0;
        v \<leftarrow> fdiv variance (real_of_int period);
        stdDev \<leftarrow> fsqrt v;
        Some (sma + multiplier * stdDev, sma, sma - multiplier * stdDev)
      })"

definition CalculateVolumeMA :: "Kline list \<Rightarrow> int \<Rightarrow> real option" where
  "CalculateVolumeMA klines period =
     (if int (length klines) < period then Some 0
      else do {
        sum \<leftarrow> for_loop (int (length klines) - period) (int (length klines))
                 (\<lambda>i sum. do { k \<leftarrow> slice_at klines i; Some (sum + Volume k) }) 0;
        fdiv sum (real_of_int period)
      })"

section \<open>Scoring (package benchmark)\<close>

definition ScoreFromError :: "real \<Rightarrow> real" where
  "ScoreFromError errorPct0 =
     (let errorPct = \<bar>errorPct0\<bar> in
      if errorPct \<le> 0.1 then 100
      else if errorPct \<le> 1 then 80
      else if errorPct \<le> 5 then 60
      else if errorPct \<le> 10 then 40
      else 0)"

definition CalculateError :: "real \<Rightarrow> real \<Rightarrow> real option" where
  "CalculateError expected actual =
     (if expected = 0 then (if actual = 0 then Some 0 else Some 100)
      else do { q \<leftarrow> fdiv \<bar>expected - actual\<bar> \<bar>expected\<bar>; Some (q * 100) })"

section \<open>Statistics (package benchmark)\<close>

text \<open>
  The structs of the package. \<^verbatim>\<open>IndicatorResult\<close> and \<^verbatim>\<open>IndicatorScores\<close> have the same ten
  \<^verbatim>\<open>float64\<close> fields under the same names and are one record. A field whose name another
  struct uses too carries its struct as a prefix. A pointer that may be \<^verbatim>\<open>nil\<close> is an option,
  a \<^verbatim>\<open>time.Duration\<close> its number of nanoseconds.
\<close>

record IndicatorResult =
  MA20 :: real
  EMA12 :: real
  EMA26 :: real
  MACD :: real
  RSI14 :: real
  BOLLUp :: real
  BOLLMid :: real
  BOLLLow :: real
  ATR14 :: real
  VolumeMA :: real

type_synonym IndicatorScores = IndicatorResult

record ModelInfo =
  info_Provider :: string
  info_Model :: string
  info_Version :: string
  info_DisplayName :: string
  info_BaseURL :: string

record BenchResult =
  SnapshotID :: string
  Model :: string
  ModelInfo :: "ModelInfo option"
  RunIndex :: int
  Expected :: "IndicatorResult option"
  Actual :: "IndicatorResult option"
  Errors :: "(string \<times> real) list"
  Scores :: "IndicatorScores option"
  TotalScore :: real
  Latency :: int
  RawOutput :: string
  Error :: string

record ModelStatistics =
  stat_Model :: string
  stat_ModelInfo :: ModelInfo
  RunCount :: nat
  SuccessCount :: nat
  FailureCount :: nat
  AvgScore :: real
  MinScore :: real
  MaxScore :: real
  StdDev :: real
  AvgLatencyMs :: real
  MinLatencyMs :: real
  MaxLatencyMs :: real
  Consistency :: real
  IndicatorAvgs :: "(string \<times> real) list"

text \<open>
  A Go map is an association list in the order in which its keys were first assigned. Go
  ranges over a map in an order it does not specify; the model ranges in that order.
  \<open>map_index zero m k\<close> is the read \<^verbatim>\<open>m[k]\<close>, which gives the zero value of the element type
  for a missing key; \<open>map_assign m k v\<close> is \<^verbatim>\<open>m[k] = v\<close>.
\<close>

definition map_index :: "'v \<Rightarrow> ('k \<times> 'v) list \<Rightarrow> 'k \<Rightarrow> 'v" where
  "map_index zero m k = (case map_of m k of None \<Rightarrow> zero | Some v \<Rightarrow> v)"

fun map_assign :: "('k \<times> 'v) list \<Rightarrow> 'k \<Rightarrow> 'v \<Rightarrow> ('k \<times> 'v) list" where
  "map_assign [] k v = [(k, v)]"
| "map_assign ((k', v') # m) k v =
     (if k' = k then (k, v) # m else (k', v') # map_assign m k v)"

text \<open>\<^verbatim>\<open>for _, x := range xs { body }\<close> on the loop's variables, for a body that can fail.\<close>

primrec for_range :: "'a list \<Rightarrow> ('a \<Rightarrow> 's \<Rightarrow> 's option) \<Rightarrow> 's \<Rightarrow> 's option" where
  "for_range [] body s = Some s"
| "for_range (x # xs) body s =
     (case body x s of None \<Rightarrow> None | Some s' \<Rightarrow> for_range xs body s')"

definition average :: "real list \<Rightarrow> real option" where
  "average values =
     (if length values = 0 then Some 0
      else fdiv (foldl (\<lambda>sum v. sum + v) 0 values) (real (length values)))"

definition min_values :: "real list \<Rightarrow> real" where
  "min_values values =
     (if length values = 0 then 0
      else foldl (\<lambda>m v. if v < m then v else m) (values ! 0) (drop 1 values))"

definition max_values :: "real list \<Rightarrow> real" where
  "max_values values =
     (if length values = 0 then 0
      else foldl (\<lambda>m v. if v > m then v else m) (values ! 0) (drop 1 values))"

definition stdDev :: "real list \<Rightarrow> real option" where
  "stdDev values =
     (if length values < 2 then Some 0
      else do {
        avg \<leftarrow> average values;
        let sumSquares = foldl (\<lambda>sumSquares v. let diff = v - avg in sumSquares + diff * diff) 0 values;
        q \<leftarrow> fdiv sumSquares (real_of_int (int (length values) - 1));
        fsqrt q
      })"

definition zero_ModelInfo :: ModelInfo where
  "zero_ModelInfo = \<lparr>info_Provider = [], info_Model = [], info_Version = [],
     info_DisplayName = [], info_BaseURL = []\<rparr>"

definition new_ModelStatistics :: "string \<Rightarrow> nat \<Rightarrow> ModelStatistics" where
  "new_ModelStatistics model runs =
     \<lparr>stat_Model = model, stat_ModelInfo = zero_ModelInfo, RunCount = runs, SuccessCount = 0,
      FailureCount = 0, AvgScore = 0, MinScore = 0, MaxScore = 0, StdDev = 0, AvgLatencyMs = 0,
      MinLatencyMs = 0, MaxLatencyMs = 0, Consistency = 0, IndicatorAvgs = []\<rparr>"

text \<open>\<^verbatim>\<open>Duration.Milliseconds\<close>: the nanoseconds divided by a million, rounded towards zero.\<close>

definition Milliseconds :: "int \<Rightarrow> int" where
  "Milliseconds d = d sdiv 1000000"

text \<open>
  The body of the loop over the results of one model, on the loop's variables \<open>stat\<close>,
  \<open>scores\<close>, \<open>latencies\<close>, \<open>indicatorSums\<close> and \<open>indicatorCounts\<close>.
\<close>

fun count_result ::
  "ModelStatistics \<times> real list \<times> real list \<times> (string \<times> real) list \<times> (string \<times> nat) list \<Rightarrow>
   BenchResult \<Rightarrow>
   ModelStatistics \<times> real list \<times> real list \<times> (string \<times> real) list \<times> (string \<times> nat) list" where
  "count_result (stat, scores, latencies, indicatorSums, indicatorCounts) r =
     (if Error r \<noteq> [] then
        (stat\<lparr>FailureCount := FailureCount stat + 1\<rparr>, scores, latencies, indicatorSums,
         indicatorCounts)
      else
        let stat = stat\<lparr>SuccessCount := SuccessCount stat + 1\<rparr>;
            scores = scores @ [TotalScore r];
            latencies = latencies @ [real_of_int (Milliseconds (Latency r))]
        in case Scores r of
             None \<Rightarrow> (stat, scores, latencies, indicatorSums, indicatorCounts)
           | Some sc \<Rightarrow>
               let indicatorSums =
                     foldl (\<lambda>m (k, x). map_assign m k (map_index 0 m k + x)) indicatorSums
                       [(''ma20'', MA20 sc), (''ema12'', EMA12 sc), (''ema26'', EMA26 sc),
                        (''macd'', MACD sc), (''rsi14'', RSI14 sc), (''boll_upper'', BOLLUp sc),
                        (''boll_middle'', BOLLMid sc), (''boll_lower'', BOLLLow sc),
                        (''atr14'', ATR14 sc), (''volume_ma5'', VolumeMA sc)];
                   indicatorCounts =
                     foldl (\<lambda>m k. map_assign m k (map_index 0 m k + 1))
                       indicatorCounts (map fst indicatorSums)
               in (stat, scores, latencies, indicatorSums, indicatorCounts))"

text \<open>
  The rest of the body of the loop over the models, after the loop over the results: the
  summaries of the scores and latencies, the consistency and the averages per indicator.
\<close>

fun summarize ::
  "ModelStatistics \<times> real list \<times> real list \<times> (string \<times> real) list \<times> (string \<times> nat) list \<Rightarrow>
   ModelStatistics option" where
  "summarize (stat, scores, latencies, indicatorSums, indicatorCounts) =
     (if length scores > 0 then do {
        avgScore \<leftarrow> average scores;
        sd \<leftarrow> stdDev scores;
        avgLatency \<leftarrow> average latencies;
        let stat = stat\<lparr>AvgScore := avgScore, MinScore := min_values scores,
              MaxScore := max_values scores, StdDev := sd, AvgLatencyMs := avgLatency,
              MinLatencyMs := min_values latencies, MaxLatencyMs := max_values latencies\<rparr>;
        stat \<leftarrow> (if AvgScore stat > 0 then do {
                   ratio \<leftarrow> fdiv (StdDev stat) (AvgScore stat);
                   let stat = stat\<lparr>Consistency := 100 - ratio * 100\<rparr>;
                   Some (if Consistency stat < 0 then stat\<lparr>Consistency := 0\<rparr> else stat)
                 } else Some stat);
        for_range indicatorSums
          (\<lambda>(k, sum) stat.
             let count = map_index 0 indicatorCounts k
             in if count > 0 then do {
                  avg \<leftarrow> fdiv sum (real count);
                  Some (stat\<lparr>IndicatorAvgs := map_assign (IndicatorAvgs stat) k avg\<rparr>)
                } else Some stat)
          stat
      } else Some stat)"

text \<open>The body of the loop over the models: the statistics of one model from its results.\<close>

definition model_statistics ::
  "string \<Rightarrow> ModelInfo option \<Rightarrow> BenchResult list \<Rightarrow> ModelStatistics option" where
  "model_statistics model info rs =
     (let stat = new_ModelStatistics model (length rs);
          stat = (case info of None \<Rightarrow> stat | Some i \<Rightarrow> stat\<lparr>stat_ModelInfo := i\<rparr>)
      in summarize (foldl count_result (stat, [], [], [], []) rs))"

definition calculateStatistics :: "BenchResult list \<Rightarrow> ModelStatistics list option" where
  "calculateStatistics results =
     (let modelResults =
            foldl (\<lambda>m r. map_assign m (Model r) (map_index [] m (Model r) @ [r])) [] results;
          modelInfos =
            foldl (\<lambda>m r. case ModelInfo r of None \<Rightarrow> m | Some info \<Rightarrow> map_assign m (Model r) info)
              [] results
      in do {
        stats \<leftarrow> for_range modelResults
                   (\<lambda>(model, rs) stats. do {
                      stat \<leftarrow> model_statistics model (map_of modelInfos model) rs;
                      Some (stats @ [stat])
                    }) [];
        Some (sort_key (\<lambda>stat. - AvgScore stat) stats)
      })"

section \<open>The run of a benchmark (package benchmark)\<close>

record Snapshot =
  ID :: string
  Symbol :: string
  Interval :: string
  Timestamp :: int
  Klines :: "Kline list"

record ModelConfig =
  config_Name :: string
  config_Provider :: string
  config_Model :: string
  config_APIKey :: string
  config_BaseURL :: string

record BenchConfig =
  Mode :: string
  DatasetDir :: string
  Symbols :: "string list"
  config_Interval :: string
  KlineCount :: int
  Models :: "ModelConfig list"
  Runs :: int

record LeaderboardEntry =
  entry_Rank :: int
  entry_Model :: string
  entry_Provider :: string
  entry_ModelID :: string
  entry_AvgScore :: real
  entry_StdDev :: real
  entry_Consistency :: real
  entry_AvgLatency :: real
  entry_RunCount :: nat

record BenchReport =
  Version :: string
  Config :: BenchConfig
  Snapshots :: "Snapshot list"
  Results :: "BenchResult list"
  Statistics :: "ModelStatistics list"
  Leaderboard :: "LeaderboardEntry list"

text \<open>
  What a run meets outside the program: the answer of the market-data service to
  \<^verbatim>\<open>market.GetKlines\<close> (an error text or the candles), the clock as \<open>CaptureSnapshot\<close> reads it
  (the formatted time and the milliseconds), the answers of the file system to \<open>LoadSnapshots\<close>
  (the entries of a directory, each a name and whether it is a directory, and the snapshot
  that \<open>LoadSnapshot\<close> reads from the file of that name in the directory, or its error),
  and the result of \<open>runSingleBenchmark\<close> for a snapshot, a model and a run index, which holds
  the answer of the model's backend.
\<close>

record World =
  GetKlines :: "string \<Rightarrow> string \<Rightarrow> int \<Rightarrow> string + Kline list"
  now_formatted :: string
  now_UnixMilli :: int
  ReadDir :: "string \<Rightarrow> string + (string \<times> bool) list"
  LoadSnapshot :: "string \<Rightarrow> string \<Rightarrow> string + Snapshot"
  runSingleBenchmark :: "Snapshot \<Rightarrow> ModelConfig \<Rightarrow> int \<Rightarrow> BenchResult"

datatype capture_error = GetKlinesFailed string | InsufficientKlines nat int

datatype run_error = LoadSnapshotsFailed string | NoSnapshotsFound string

definition CaptureSnapshot :: "World \<Rightarrow> string \<Rightarrow> string \<Rightarrow> int \<Rightarrow> capture_error + Snapshot" where
  "CaptureSnapshot world symbol interval klineCount =
     (case GetKlines world symbol interval klineCount of
        Inl err \<Rightarrow> Inl (GetKlinesFailed err)
      | Inr klines \<Rightarrow>
          if int (length klines) < klineCount
          then Inl (InsufficientKlines (length klines) klineCount)
          else Inr \<lparr>ID = now_formatted world @ ''_'' @ symbol @ ''_'' @ interval,
                    Symbol = symbol, Interval = interval, Timestamp = now_UnixMilli world,
                    Klines = klines\<rparr>)"

definition HasSuffix :: "string \<Rightarrow> string \<Rightarrow> bool" where
  "HasSuffix s suffix =
     (length suffix \<le> length s \<and> drop (length s - length suffix) s = suffix)"

definition LoadSnapshots :: "World \<Rightarrow> string \<Rightarrow> string + Snapshot list" where
  "LoadSnapshots world dir =
     (case ReadDir world dir of
        Inl err \<Rightarrow> Inl (''failed to read directory: '' @ err)
      | Inr entries \<Rightarrow>
          let snapshots =
                foldl (\<lambda>snapshots (name, isDir).
                         if isDir \<or> \<not> HasSuffix name ''.json'' then snapshots
                         else case LoadSnapshot world dir name of
                                Inl err \<Rightarrow> snapshots
                              | Inr snapshot \<Rightarrow> snapshots @ [snapshot])
                  [] entries
          in Inr (sort_key (\<lambda>snapshot. - Timestamp snapshot) snapshots))"

definition calculateLeaderboard :: "ModelStatistics list \<Rightarrow> LeaderboardEntry list" where
  "calculateLeaderboard stats =
     (let entries = map (\<lambda>s. \<lparr>entry_Rank = 0, entry_Model = stat_Model s,
                            entry_Provider = info_Provider (stat_ModelInfo s),
                            entry_ModelID = info_Model (stat_ModelInfo s),
                            entry_AvgScore = AvgScore s, entry_StdDev = StdDev s,
                            entry_Consistency = Consistency s, entry_AvgLatency = AvgLatencyMs s,
                            entry_RunCount = RunCount s\<rparr>) stats;
          entries = sort_key (\<lambda>e. - entry_AvgScore e) entries
      in map (\<lambda>(i, e). e\<lparr>entry_Rank := int i + 1\<rparr>) (enumerate 0 entries))"

text \<open>
  Step 1 of \<open>Engine.Run\<close>: the snapshots, or the error that ends the run. In realtime mode a
  symbol whose capture fails is logged and passed over. Saving a captured snapshot only
  logs when it fails and is left out.
\<close>

definition get_snapshots :: "World \<Rightarrow> BenchConfig \<Rightarrow> run_error + Snapshot list" where
  "get_snapshots world config =
     (if Mode config = ''static'' then
        (case LoadSnapshots world (DatasetDir config) of
           Inl err \<Rightarrow> Inl (LoadSnapshotsFailed err)
         | Inr snapshots \<Rightarrow>
             if length snapshots = 0 then Inl (NoSnapshotsFound (DatasetDir config))
             else Inr snapshots)
      else
        Inr (foldl (\<lambda>snapshots symbol.
                      case CaptureSnapshot world symbol (config_Interval config) (KlineCount config) of
                        Inl err \<Rightarrow> snapshots
                      | Inr snapshot \<Rightarrow> snapshots @ [snapshot])
               [] (Symbols config)))"

text \<open>
  \<open>Engine.Run\<close>. The models of one snapshot and run index answer concurrently and their
  results are appended in the order in which they finish; the model appends them in the order
  of the configuration. The fields of the report read from the clock and the runtime are
  left out.
\<close>

definition Run :: "World \<Rightarrow> BenchConfig \<Rightarrow> (run_error + BenchReport) option" where
  "Run world config =
     (case get_snapshots world config of
        Inl err \<Rightarrow> Some (Inl err)
      | Inr snapshots \<Rightarrow>
          let results =
                concat (map (\<lambda>snapshot.
                  concat (map (\<lambda>runIdx.
                    map (\<lambda>modelCfg. runSingleBenchmark world snapshot modelCfg runIdx)
                      (Models config))
                    [0..Runs config - 1]))
                  snapshots)
          in do {
            statistics \<leftarrow> calculateStatistics results;
            Some (Inr \<lparr>Version = ''1.0.0'', Config = config, Snapshots = snapshots,
                        Results = results, Statistics = statistics,
                        Leaderboard = calculateLeaderboard statistics\<rparr>)
          })"

section \<open>Reading the reply of a model (package benchmark)\<close>

text \<open>
  \<^verbatim>\<open>json.Unmarshal\<close> and \<^verbatim>\<open>regexp\<close> belong to Go's library. The library's check of the
  syntax is the parameter \<open>valid\<close>, which gives the JSON value that a text denotes, its
  folding of the case of a key is the parameter \<open>foldName\<close>, and its rounding of a number to
  the nearest \<^verbatim>\<open>float64\<close> is the parameter \<open>ParseFloat\<close>. What the library does with an
  object and a struct of \<^verbatim>\<open>float64\<close> fields is written out after its documentation: a member
  whose key is the tag of a field, or else folds to the same as one, is stored in that field;
  a number is stored, rounded, when \<^verbatim>\<open>float64\<close> can hold it, which is when it rounds to a
  finite value; \<^verbatim>\<open>null\<close> stores nothing; every other value is a type error; the members
  after an error are still stored and the first error is returned; a member with another key
  is passed over. The tags are those of \<^verbatim>\<open>IndicatorResult\<close>.
\<close>

datatype json =
  JNull | JBool bool | JNumber real | JString string | JArray "json list"
  | JObject "(string \<times> json) list"

datatype unmarshal_error = SyntaxError | UnmarshalTypeError string

datatype parse_error = NoJSONFound | ParseJSONFailed unmarshal_error

definition float64_limit :: real where
  "float64_limit = 2 ^ 1024 - 2 ^ 970"

definition indicator_tags :: "string list" where
  "indicator_tags = [''ma20'', ''ema12'', ''ema26'', ''macd'', ''rsi14'', ''boll_upper'',
     ''boll_middle'', ''boll_lower'', ''atr14'', ''volume_ma5'']"

definition get_field :: "string \<Rightarrow> IndicatorResult \<Rightarrow> real" where
  "get_field tag r =
     (if tag = ''ma20'' then MA20 r else if tag = ''ema12'' then EMA12 r
      else if tag = ''ema26'' then EMA26 r else if tag = ''macd'' then MACD r
      else if tag = ''rsi14'' then RSI14 r else if tag = ''boll_upper'' then BOLLUp r
      else if tag = ''boll_middle'' then BOLLMid r else if tag = ''boll_lower'' then BOLLLow r
      else if tag = ''atr14'' then ATR14 r else if tag = ''volume_ma5'' then VolumeMA r
      else 0)"

definition set_field :: "string \<Rightarrow> real \<Rightarrow> IndicatorResult \<Rightarrow> IndicatorResult" where
  "set_field tag x r =
     (if tag = ''ma20'' then r\<lparr>MA20 := x\<rparr> else if tag = ''ema12'' then r\<lparr>EMA12 := x\<rparr>
      else if tag = ''ema26'' then r\<lparr>EMA26 := x\<rparr> else if tag = ''macd'' then r\<lparr>MACD := x\<rparr>
      else if tag = ''rsi14'' then r\<lparr>RSI14 := x\<rparr> else if tag = ''boll_upper'' then r\<lparr>BOLLUp := x\<rparr>
      else if tag = ''boll_middle'' then r\<lparr>BOLLMid := x\<rparr>
      else if tag = ''boll_lower'' then r\<lparr>BOLLLow := x\<rparr>
      else if tag = ''atr14'' then r\<lparr>ATR14 := x\<rparr>
      else if tag = ''volume_ma5'' then r\<lparr>VolumeMA := x\<rparr>
      else r)"

definition zero_IndicatorResult :: IndicatorResult where
  "zero_IndicatorResult = \<lparr>MA20 = 0, EMA12 = 0, EMA26 = 0, MACD = 0, RSI14 = 0, BOLLUp = 0,
     BOLLMid = 0, BOLLLow = 0, ATR14 = 0, VolumeMA = 0\<rparr>"

definition field_for_key :: "(string \<Rightarrow> string) \<Rightarrow> string \<Rightarrow> string option" where
  "field_for_key foldName key =
     (if key \<in> set indicator_tags then Some key
      else find (\<lambda>tag. foldName tag = foldName key) indicator_tags)"

fun store_float64 ::
  "(real \<Rightarrow> real) \<Rightarrow> json \<Rightarrow> real \<Rightarrow> unmarshal_error option \<times> real" where
  "store_float64 ParseFloat (JNumber x) old =
     (if \<bar>x\<bar> < float64_limit then (None, ParseFloat x)
      else (Some (UnmarshalTypeError ''number''), old))"
| "store_float64 ParseFloat JNull old = (None, old)"
| "store_float64 ParseFloat (JBool b) old = (Some (UnmarshalTypeError ''bool''), old)"
| "store_float64 ParseFloat (JString s) old = (Some (UnmarshalTypeError ''string''), old)"
| "store_float64 ParseFloat (JArray vs) old = (Some (UnmarshalTypeError ''array''), old)"
| "store_float64 ParseFloat (JObject ms) old = (Some (UnmarshalTypeError ''object''), old)"

fun store_member ::
  "(string \<Rightarrow> string) \<Rightarrow> (real \<Rightarrow> real) \<Rightarrow> unmarshal_error option \<times> IndicatorResult \<Rightarrow>
   string \<times> json \<Rightarrow> unmarshal_error option \<times> IndicatorResult" where
  "store_member foldName ParseFloat (saved, result) (key, v) =
     (case field_for_key foldName key of
        None \<Rightarrow> (saved, result)
      | Some tag \<Rightarrow>
          let (err, x) = store_float64 ParseFloat v (get_field tag result)
          in (if saved = None then err else saved, set_field tag x result))"

definition Unmarshal ::
  "(string \<Rightarrow> json option) \<Rightarrow> (string \<Rightarrow> string) \<Rightarrow> (real \<Rightarrow> real) \<Rightarrow> string \<Rightarrow>
   IndicatorResult \<Rightarrow> unmarshal_error option \<times> IndicatorResult" where
  "Unmarshal valid foldName ParseFloat data result =
     (case valid data of
        None \<Rightarrow> (Some SyntaxError, result)
      | Some (JObject members) \<Rightarrow>
          foldl (store_member foldName ParseFloat) (None, result) members
      | Some JNull \<Rightarrow> (None, result)
      | Some (JBool b) \<Rightarrow> (Some (UnmarshalTypeError ''bool''), result)
      | Some (JNumber x) \<Rightarrow> (Some (UnmarshalTypeError ''number''), result)
      | Some (JString s) \<Rightarrow> (Some (UnmarshalTypeError ''string''), result)
      | Some (JArray vs) \<Rightarrow> (Some (UnmarshalTypeError ''array''), result))"

text \<open>
  \<^verbatim>\<open>FindString\<close> for the pattern \<^verbatim>\<open>\{[^{}]*"ma20"[^{}]*\}\<close>: the first opening brace after
  which the text up to the next brace holds \<^verbatim>\<open>"ma20"\<close> and that next brace is a closing one;
  the match runs from the one brace to the other. \<open>Index\<close> and \<open>LastIndex\<close> give \<open>- 1\<close> for a
  character that does not occur.
\<close>

fun contains :: "string \<Rightarrow> string \<Rightarrow> bool" where
  "contains [] sub = (sub = [])"
| "contains (c # cs) sub = (take (length sub) (c # cs) = sub \<or> contains cs sub)"

definition brace :: "char \<Rightarrow> bool" where
  "brace c = (c = CHR ''{'' \<or> c = CHR ''}'')"

fun FindString_ma20 :: "string \<Rightarrow> string" where
  \<open>FindString_ma20 [] = []\<close>
| \<open>FindString_ma20 (c # cs) =
     (if c = CHR ''{'' \<and>
         take 1 (dropWhile (\<lambda>x. \<not> brace x) cs) = ''}'' \<and>
         contains (takeWhile (\<lambda>x. \<not> brace x) cs) ''"ma20"''
      then c # takeWhile (\<lambda>x. \<not> brace x) cs @ ''}''
      else FindString_ma20 cs)\<close>

fun Index :: "string \<Rightarrow> char \<Rightarrow> int" where
  "Index [] c = - 1"
| "Index (x # xs) c = (if x = c then 0 else let i = Index xs c in if i = - 1 then - 1 else i + 1)"

definition LastIndex :: "string \<Rightarrow> char \<Rightarrow> int" where
  "LastIndex s c = (let i = Index (rev s) c in if i = - 1 then - 1 else int (length s) - 1 - i)"

definition ParseIndicatorResponse ::
  "(string \<Rightarrow> json option) \<Rightarrow> (string \<Rightarrow> string) \<Rightarrow> (real \<Rightarrow> real) \<Rightarrow> string \<Rightarrow>
   parse_error + IndicatorResult" where
  "ParseIndicatorResponse valid foldName ParseFloat response =
     (let (err, result) = Unmarshal valid foldName ParseFloat response zero_IndicatorResult
      in if err = None then Inr result
         else
           let match = FindString_ma20 response;
               match = (if match = [] then
                          let start = Index response CHR ''{'';
                              end = LastIndex response CHR ''}''
                          in if start \<noteq> - 1 \<and> end \<noteq> - 1 \<and> end > start
                             then take (nat (end + 1 - start)) (drop (nat start) response)
                             else match
                        else match)
           in if match = [] then Inl NoJSONFound
              else
                let (err, result) = Unmarshal valid foldName ParseFloat match result
                in (case err of Some e \<Rightarrow> Inl (ParseJSONFailed e) | None \<Rightarrow> Inr result))"

section \<open>The indicators as the specification words them\<close>

text \<open>
  The exponential moving average: the seed is the mean of the closes of the first \<open>period\<close>
  candles; every later candle, oldest first, moves it by \<open>(close - ema) * k\<close> with
  \<open>k = 2 / (period + 1)\<close>.
\<close>

definition EMA_spec :: "Kline list \<Rightarrow> nat \<Rightarrow> real" where
  "EMA_spec klines period =
     (let k = 2 / (real period + 1);
          seed = sum_list (map Close (take period klines)) / real period
      in foldl (\<lambda>ema i. (Close (klines ! i) - ema) * k + ema) seed [period..<length klines])"

text \<open>
  Bollinger bands: the middle band is the mean of the last \<open>period\<close> closes, the deviation
  divides the squared distances from it by \<open>period\<close>.
\<close>

definition BOLL_spec :: "Kline list \<Rightarrow> nat \<Rightarrow> real \<Rightarrow> real \<times> real \<times> real" where
  "BOLL_spec klines period multiplier =
     (let window = map Close (drop (length klines - period) klines);
          middle = sum_list window / real period;
          stddev = sqrt (sum_list (map (\<lambda>c. (c - middle)\<^sup>2) window) / real period)
      in (middle + multiplier * stddev, middle, middle - multiplier * stddev))"

text \<open>
  The relative strength index after Wilder. The change of the close at index \<open>i\<close> contributes
  itself to the gains when it is positive and its magnitude to the losses otherwise. The two
  averages start as the sums over the indices 1 to \<open>period\<close> divided by \<open>period\<close>; every later
  index moves each average to \<open>(avg * (period - 1) + contribution) / period\<close>.
\<close>

definition delta :: "Kline list \<Rightarrow> nat \<Rightarrow> real" where
  "delta klines i = Close (klines ! i) - Close (klines ! (i - 1))"

definition gain_of :: "real \<Rightarrow> real" where
  "gain_of d = (if d > 0 then d else 0)"

definition loss_of :: "real \<Rightarrow> real" where
  "loss_of d = (if d > 0 then 0 else \<bar>d\<bar>)"

definition wilder :: "nat \<Rightarrow> real \<Rightarrow> real \<Rightarrow> real" where
  "wilder period avg contribution = (avg * (real period - 1) + contribution) / real period"

definition RSI_spec :: "Kline list \<Rightarrow> nat \<Rightarrow> real" where
  "RSI_spec klines period =
     (let avgGain0 = (\<Sum>i\<leftarrow>[1..<period + 1]. gain_of (delta klines i)) / real period;
          avgLoss0 = (\<Sum>i\<leftarrow>[1..<period + 1]. loss_of (delta klines i)) / real period;
          avgGain = foldl (\<lambda>avg i. wilder period avg (gain_of (delta klines i))) avgGain0
                      [period + 1..<length klines];
          avgLoss = foldl (\<lambda>avg i. wilder period avg (loss_of (delta klines i))) avgLoss0
                      [period + 1..<length klines]
      in if avgLoss = 0 then 100 else 100 - 100 / (1 + avgGain / avgLoss))"

text \<open>A candle whose prices all are \<open>c\<close>, for the examples.\<close>

definition candle :: "real \<Rightarrow> Kline" where
  "candle c = \<lparr>OpenTime = 0, Open = c, High = c, Low = c, Close = c, Volume = 1, CloseTime = 0\<rparr>"

text \<open>
  The summaries of the statistics: the mean, the sample standard deviation (divisor
  \<open>n - 1\<close>, and 0 for fewer than two values), the fields of a \<^verbatim>\<open>ModelStatistics\<close> that summarise
  scores and latencies, and the runs that succeeded.
\<close>

definition mean :: "real list \<Rightarrow> real" where
  "mean xs = sum_list xs / real (length xs)"

definition sample_stddev :: "real list \<Rightarrow> real" where
  "sample_stddev xs =
     (if length xs < 2 then 0
      else sqrt ((\<Sum>x\<leftarrow>xs. (x - mean xs)\<^sup>2) / (real (length xs) - 1)))"

definition distribution ::
  "ModelStatistics \<Rightarrow> (real \<times> real \<times> real \<times> real) \<times> (real \<times> real \<times> real) \<times> real \<times> (string \<times> real) list" where
  "distribution stat =
     ((AvgScore stat, MinScore stat, MaxScore stat, StdDev stat),
      (AvgLatencyMs stat, MinLatencyMs stat, MaxLatencyMs stat),
      Consistency stat, IndicatorAvgs stat)"

definition succeeded :: "BenchResult \<Rightarrow> bool" where
  "succeeded r = (Error r = [])"

definition latency_ms :: "BenchResult \<Rightarrow> real" where
  "latency_ms r = real_of_int (Milliseconds (Latency r))"

text \<open>
  A run of the model \<open>m\<close> with an error text and, when that is empty, the same score for
  every indicator, for the examples.
\<close>

definition run_of :: "string \<Rightarrow> real \<Rightarrow> string \<Rightarrow> BenchResult" where
  "run_of m score err =
     \<lparr>SnapshotID = ''s1'', Model = m, ModelInfo = None, RunIndex = 0, Expected = None,
      Actual = None, Errors = [],
      Scores = (if err = [] then Some \<lparr>MA20 = score, EMA12 = score, EMA26 = score, MACD = score,
                  RSI14 = score, BOLLUp = score, BOLLMid = score, BOLLLow = score,
                  ATR14 = score, VolumeMA = score\<rparr> else None),
      TotalScore = (if err = [] then score else 0), Latency = 2500000,
      RawOutput = [], Error = err\<rparr>"

text \<open>
  A world without market data and without stored snapshots, and a configuration of one
  model and one run, for the examples.
\<close>

definition offline :: World where
  "offline = \<lparr>GetKlines = (\<lambda>symbol interval limit. Inl ''CoinAnk API error''),
     now_formatted = ''20240101_000000'', now_UnixMilli = 1704067200000,
     ReadDir = (\<lambda>dir. Inr [(''readme.txt'', False), (''broken.json'', False)]),
     LoadSnapshot = (\<lambda>dir name. Inl ''failed to unmarshal snapshot''),
     runSingleBenchmark = (\<lambda>snapshot modelCfg runIdx. run_of (config_Name modelCfg) 0 [])\<rparr>"

definition bench_config :: "string \<Rightarrow> string list \<Rightarrow> BenchConfig" where
  "bench_config mode symbols =
     \<lparr>Mode = mode, DatasetDir = ''datasets/snapshots'', Symbols = symbols,
      config_Interval = ''1h'', KlineCount = 30,
      Models = [\<lparr>config_Name = ''a'', config_Provider = ''openai'', config_Model = ''m'',
                 config_APIKey = ''k'', config_BaseURL = []\<rparr>],
      Runs = 1\<rparr>"

text \<open>
  The values that \<^verbatim>\<open>float64\<close> can hold; two replies of a model, one with a number beyond
  \<^verbatim>\<open>float64\<close> and one with two of the ten fields, and the JSON values that these two texts
  denote. The keys of the two replies are tags, so that no key is folded, and the numbers
  101.5 and 55 are \<^verbatim>\<open>float64\<close> values, which rounding leaves as they are: the examples
  take the identity for the folding and for the rounding.
\<close>

definition in_float64_range :: "json \<Rightarrow> bool" where
  "in_float64_range v = (case v of JNumber x \<Rightarrow> \<bar>x\<bar> < float64_limit | _ \<Rightarrow> False)"

definition huge_reply :: string where
  \<open>huge_reply = ''{"ma20": 1e999}''\<close>

definition partial_reply :: string where
  \<open>partial_reply = ''{"ma20": 101.5, "rsi14": 55}''\<close>

definition huge_value :: real where
  "huge_value = 10 ^ 999"

definition valid_json :: "string \<Rightarrow> json option" where
  "valid_json data =
     (if data = huge_reply then Some (JObject [(''ma20'', JNumber huge_value)])
      else if data = partial_reply
      then Some (JObject [(''ma20'', JNumber 101.5), (''rsi14'', JNumber 55)])
      else None)"

section \<open>Loops that cannot fail\<close>

lemma for_loop_nat:
  assumes "\<And>j s. a \<le> j \<Longrightarrow> j < b \<Longrightarrow> body (int j) s = Some (f j s)"
  shows "for_loop (int a) (int b) body s = Some (foldl (\<lambda>s j. f j s) s [a..<b])"
  using assms
proof (induction "b - a" arbitrary: a s)
  case 0
  then show ?case by (simp add: for_loop.simps)
next
  case (Suc n)
  then have lt: "a < b" and n: "n = b - Suc a" by simp_all
  have step: "body (int a) s = Some (f a s)" using Suc.prems lt by simp
  have "for_loop (int (Suc a)) (int b) body (f a s) = Some (foldl (\<lambda>s j. f j s) (f a s) [Suc a..<b])"
    using Suc.hyps(1) [OF n] Suc.prems by simp
  then have "for_loop (int a + 1) (int b) body (f a s) = Some (foldl (\<lambda>s j. f j s) (f a s) [Suc a..<b])"
    by (simp add: add.commute)
  then show ?case
    using lt step by (subst for_loop.simps) (simp add: upt_conv_Cons)
qed

lemma slice_at_nat: "j < length xs \<Longrightarrow> slice_at xs (int j) = Some (xs ! j)"
  by (simp add: slice_at_def)

lemma map_nth_upt: "b \<le> length xs \<Longrightarrow> map ((!) xs) [a..<b] = drop a (take b xs)"
  by (rule nth_equalityI) auto

lemma foldl_plus_sum_list: "foldl (+) s ys = s + sum_list (ys :: real list)"
  by (induction ys arbitrary: s) (simp_all add: add.assoc)

lemma foldl_add_nth:
  "b \<le> length xs \<Longrightarrow>
   foldl (\<lambda>s j. s + g (xs ! j)) s0 [a..<b] = s0 + sum_list (map g (drop a (take b xs)) :: real list)"
proof -
  assume b: "b \<le> length xs"
  have "foldl (\<lambda>s j. s + g (xs ! j)) s0 [a..<b] = foldl (+) s0 (map (\<lambda>j. g (xs ! j)) [a..<b])"
    by (simp add: foldl_map)
  also have "map (\<lambda>j. g (xs ! j)) [a..<b] = map g (map ((!) xs) [a..<b])" by simp
  also have "map ((!) xs) [a..<b] = drop a (take b xs)"
    using b by (simp add: map_nth_upt)
  finally show ?thesis by (simp add: foldl_plus_sum_list)
qed

lemma sum_loop:
  assumes "b \<le> length xs"
  shows "for_loop (int a) (int b) (\<lambda>i sum. do { k \<leftarrow> slice_at xs i; Some (sum + g k) }) s0
         = Some (s0 + sum_list (map g (drop a (take b xs)) :: real list))"
proof -
  have "for_loop (int a) (int b) (\<lambda>i sum. do { k \<leftarrow> slice_at xs i; Some (sum + g k) }) s0
        = Some (foldl (\<lambda>s j. s + g (xs ! j)) s0 [a..<b])"
    by (rule for_loop_nat) (use assms in \<open>simp add: slice_at_nat\<close>)
  then show ?thesis using assms by (simp add: foldl_add_nth)
qed

lemma int_nat_period:
  assumes "0 < period" "period \<le> int (length (klines :: Kline list))"
  obtains p where "period = int p" "0 < p" "p \<le> length klines"
  using assms by (metis nat_0_le nat_le_iff order_less_imp_le zero_less_nat_eq)

section \<open>Exponential moving average\<close>

lemma CalculateEMA_spec:
  assumes "0 < period" "period \<le> int (length klines)"
  shows "CalculateEMA klines period = Some (EMA_spec klines (nat period))"
proof -
  obtain p where p: "period = int p" "0 < p" "p \<le> length klines"
    using assms by (metis nat_0_le nat_le_iff of_nat_0_less_iff order_less_imp_le zero_less_nat_eq)
  let ?k = "2 / (real p + 1)"
  have l1: "for_loop 0 (int p) (\<lambda>i sum. do { k \<leftarrow> slice_at klines i; Some (sum + Close k) }) 0
            = Some (sum_list (map Close (take p klines)))"
    using sum_loop [of p klines 0 Close 0] p by simp
  have l2: "for_loop (int p) (int (length klines))
              (\<lambda>i ema. do { k \<leftarrow> slice_at klines i; Some ((Close k - ema) * ?k + ema) }) s
            = Some (foldl (\<lambda>ema i. (Close (klines ! i) - ema) * ?k + ema) s [p..<length klines])" for s
    by (rule for_loop_nat) (simp add: slice_at_nat)
  have m: "real_of_int (int p + 1) = real p + 1" by simp
  show ?thesis
    using p l1 l2 by (simp add: CalculateEMA_def EMA_spec_def fdiv_def add.commute)
qed

lemma EMA_spec_constant:
  assumes "0 < period" "period \<le> length klines" "\<forall>k\<in>set klines. Close k = c"
  shows "EMA_spec klines period = c"
proof -
  have "replicate (length (map Close (take period klines))) c = map Close (take period klines)"
    using assms(3) by (intro replicate_length_same) (auto dest: in_set_takeD)
  then have "map Close (take period klines) = replicate period c"
    using assms(2) by simp
  then have seed: "sum_list (map Close (take period klines)) / real period = c"
    using assms by (simp add: sum_list_replicate)
  have "foldl (\<lambda>ema i. (Close (klines ! i) - ema) * k + ema) c js = c"
    if "\<forall>j\<in>set js. j < length klines" for js k
    using that assms(3) by (induction js) simp_all
  then show ?thesis by (simp add: EMA_spec_def seed Let_def)
qed

text \<open>
  C1: on a series of at least \<open>period\<close> candles (\<open>period\<close> positive), \<open>CalculateEMA\<close> is the
  fold seeded with the mean of the closes of the first \<open>period\<close> candles and updated by
  \<open>ema := (close i - ema) * k + ema\<close>, \<open>k = 2 / (period + 1)\<close>, for \<open>i\<close> from \<open>period\<close> to the
  last index; on 15 candles that all close at 100, the EMA of period 12 is exactly 100.
\<close>

theorem CalculateEMA_seeded_fold:
  "(0 < period \<and> period \<le> int (length klines) \<longrightarrow>
      CalculateEMA klines period = Some (EMA_spec klines (nat period))) \<and>
   (length klines = 15 \<and> (\<forall>k\<in>set klines. Close k = 100) \<longrightarrow>
      CalculateEMA klines 12 = Some 100)"
proof (intro conjI impI)
  assume "0 < period \<and> period \<le> int (length klines)"
  then show "CalculateEMA klines period = Some (EMA_spec klines (nat period))"
    by (simp add: CalculateEMA_spec)
next
  assume a: "length klines = 15 \<and> (\<forall>k\<in>set klines. Close k = 100)"
  then have "CalculateEMA klines 12 = Some (EMA_spec klines (nat 12))"
    by (intro CalculateEMA_spec) simp_all
  moreover have "EMA_spec klines 12 = 100"
    using a by (intro EMA_spec_constant) simp_all
  ultimately show "CalculateEMA klines 12 = Some 100" by simp
qed

theorem CalculateEMA_seeded_fold_witness:
  "CalculateEMA (map candle [1, 2, 3, 4, 5]) 3 = Some (EMA_spec (map candle [1, 2, 3, 4, 5]) (nat 3)) \<and>
   EMA_spec (map candle [1, 2, 3, 4, 5]) (nat 3) = 4 \<and>
   CalculateEMA (replicate 15 (candle 100)) 12 = Some 100"
proof -
  have "CalculateEMA (map candle [1, 2, 3, 4, 5]) 3 = Some (EMA_spec (map candle [1, 2, 3, 4, 5]) (nat 3))"
    using CalculateEMA_seeded_fold [of 3 "map candle [1, 2, 3, 4, 5]"] by simp
  moreover have "EMA_spec (map candle [1, 2, 3, 4, 5]) (nat 3) = 4"
    by (simp add: EMA_spec_def candle_def upt_conv_Cons)
  moreover have "CalculateEMA (replicate 15 (candle 100)) 12 = Some 100"
    using CalculateEMA_seeded_fold [of 12 "replicate 15 (candle 100)", THEN conjunct2]
    by (simp add: candle_def)
  ultimately show ?thesis by simp
qed

section \<open>Series shorter than the period\<close>

text \<open>
  C2: with fewer than \<open>P\<close> candles \<open>CalculateSMA\<close>, \<open>CalculateEMA\<close> and \<open>CalculateVolumeMA\<close>
  return 0 and \<open>CalculateBOLL\<close> returns 0 for its three bands; with at most \<open>P\<close> candles
  \<open>CalculateRSI\<close> and \<open>CalculateATR\<close> return 0. Each is the value 0 and no failure.
\<close>

theorem short_series_sentinel:
  "(int (length klines) < P \<longrightarrow>
      CalculateSMA klines P = Some 0 \<and> CalculateEMA klines P = Some 0 \<and>
      CalculateVolumeMA klines P = Some 0 \<and> CalculateBOLL klines P m = Some (0, 0, 0)) \<and>
   (int (length klines) \<le> P \<longrightarrow>
      CalculateRSI klines P = Some 0 \<and> CalculateATR klines P = Some 0)"
  by (simp add: CalculateSMA_def CalculateEMA_def CalculateVolumeMA_def CalculateBOLL_def
      CalculateRSI_def CalculateATR_def)

theorem short_series_sentinel_witness:
  "CalculateSMA [candle 7, candle 8] 3 = Some 0 \<and> CalculateEMA [candle 7, candle 8] 3 = Some 0 \<and>
   CalculateVolumeMA [candle 7, candle 8] 3 = Some 0 \<and>
   CalculateBOLL [candle 7, candle 8] 3 2 = Some (0, 0, 0) \<and>
   CalculateRSI [candle 7, candle 8] 2 = Some 0 \<and> CalculateATR [candle 7, candle 8] 2 = Some 0"
  using short_series_sentinel [of "[candle 7, candle 8]" 3 2]
    short_series_sentinel [of "[candle 7, candle 8]" 2 2]
  by simp

section \<open>Relative strength index\<close>

lemma slice_at_pred:
  "0 < j \<Longrightarrow> j < length xs \<Longrightarrow> slice_at xs (int j - 1) = Some (xs ! (j - 1))"
  by (simp add: slice_at_def nat_diff_distrib')

lemma foldl_gains_losses:
  "foldl (\<lambda>s j. case s of (gains, losses) \<Rightarrow>
            if d j > 0 then (gains + d j, losses) else (gains, losses + - d j)) (g0, l0) js
   = (g0 + (\<Sum>j\<leftarrow>js. gain_of (d j)), l0 + (\<Sum>j\<leftarrow>js. loss_of (d j)))"
  by (induction js arbitrary: g0 l0) (simp_all add: gain_of_def loss_of_def add.assoc)

lemma foldl_wilder_pair:
  "foldl (\<lambda>s j. case s of (g, l) \<Rightarrow>
            (wilder p g (gain_of (d j)), wilder p l (loss_of (d j)))) (g0, l0) js
   = (foldl (\<lambda>avg j. wilder p avg (gain_of (d j))) g0 js,
      foldl (\<lambda>avg j. wilder p avg (loss_of (d j))) l0 js)"
  by (induction js arbitrary: g0 l0) simp_all

lemma gain_of_nonneg: "0 \<le> gain_of d" and loss_of_nonneg: "0 \<le> loss_of d"
  by (simp_all add: gain_of_def loss_of_def)

lemma wilder_nonneg: "0 < p \<Longrightarrow> 0 \<le> avg \<Longrightarrow> 0 \<le> c \<Longrightarrow> 0 \<le> wilder p avg c"
  by (simp add: wilder_def)

lemma foldl_wilder_nonneg:
  "0 < p \<Longrightarrow> 0 \<le> a0 \<Longrightarrow> (\<And>j. 0 \<le> c j) \<Longrightarrow> 0 \<le> foldl (\<lambda>avg j. wilder p avg (c j)) a0 js"
  by (induction js arbitrary: a0) (simp_all add: wilder_nonneg)

lemma foldl_wilder_zero:
  "\<forall>j\<in>set js. c j = 0 \<Longrightarrow> foldl (\<lambda>avg j. wilder p avg (c j)) 0 js = 0"
  by (induction js) (simp_all add: wilder_def)

lemma CalculateRSI_spec:
  assumes "0 < period" "period < int (length klines)"
  shows "CalculateRSI klines period = Some (RSI_spec klines (nat period))"
proof -
  obtain p where p: "period = int p" "0 < p" "p \<le> length klines"
    using assms by (auto intro: int_nat_period [of period klines])
  have lt: "p < length klines" using assms p by simp
  let ?d = "delta klines"
  let ?body1 = "\<lambda>i (gains, losses). do {
              k \<leftarrow> slice_at klines i;
              k' \<leftarrow> slice_at klines (i - 1);
              let change = Close k - Close k';
              Some (if change > 0 then (gains + change, losses)
                    else (gains, losses + - change)) }"
  have "for_loop (int 1) (int (p + 1)) ?body1 (0, 0)
        = Some (foldl (\<lambda>s j. (case s of (gains, losses) \<Rightarrow>
              if ?d j > 0 then (gains + ?d j, losses) else (gains, losses + - ?d j))) (0, 0) [1..<p + 1])"
    by (rule for_loop_nat) (use lt in \<open>auto simp: slice_at_nat slice_at_pred delta_def\<close>)
  then have l1: "for_loop 1 (int p + 1) ?body1 (0, 0)
        = Some ((\<Sum>j\<leftarrow>[1..<p + 1]. gain_of (?d j)), (\<Sum>j\<leftarrow>[1..<p + 1]. loss_of (?d j)))"
    using foldl_gains_losses [of ?d 0 0 "[1..<p + 1]"] by (simp add: add.commute del: upt_Suc)
  let ?body2 = "\<lambda>i (avgGain, avgLoss). do {
              k \<leftarrow> slice_at klines i;
              k' \<leftarrow> slice_at klines (i - 1);
              let change = Close k - Close k';
              if change > 0 then do {
                g \<leftarrow> fdiv (avgGain * real_of_int (int p - 1) + change) (real_of_int (int p));
                l \<leftarrow> fdiv (avgLoss * real_of_int (int p - 1)) (real_of_int (int p));
                Some (g, l)
              } else do {
                g \<leftarrow> fdiv (avgGain * real_of_int (int p - 1)) (real_of_int (int p));
                l \<leftarrow> fdiv (avgLoss * real_of_int (int p - 1) + (- change)) (real_of_int (int p));
                Some (g, l)
              } }"
  have "for_loop (int (p + 1)) (int (length klines)) ?body2 s
        = Some (foldl (\<lambda>s j. (case s of (g, l) \<Rightarrow>
              (wilder p g (gain_of (?d j)), wilder p l (loss_of (?d j))))) s [p + 1..<length klines])" for s
    by (rule for_loop_nat)
      (use p in \<open>auto simp: slice_at_nat slice_at_pred delta_def fdiv_def wilder_def gain_of_def loss_of_def\<close>)
  then have l2: "for_loop (int p + 1) (int (length klines)) ?body2 (g0, l0)
        = Some (foldl (\<lambda>avg j. wilder p avg (gain_of (?d j))) g0 [p + 1..<length klines],
                foldl (\<lambda>avg j. wilder p avg (loss_of (?d j))) l0 [p + 1..<length klines])" for g0 l0
    using foldl_wilder_pair [of p ?d g0 l0 "[p + 1..<length klines]"]
    by (simp add: add.commute del: upt_Suc)
  let ?g0 = "(\<Sum>j\<leftarrow>[1..<p + 1]. gain_of (?d j)) / real p"
  let ?l0 = "(\<Sum>j\<leftarrow>[1..<p + 1]. loss_of (?d j)) / real p"
  let ?g = "foldl (\<lambda>avg j. wilder p avg (gain_of (?d j))) ?g0 [p + 1..<length klines]"
  let ?l = "foldl (\<lambda>avg j. wilder p avg (loss_of (?d j))) ?l0 [p + 1..<length klines]"
  have g: "0 \<le> ?g"
    using p by (intro foldl_wilder_nonneg divide_nonneg_nonneg sum_list_nonneg) (auto simp: gain_of_nonneg)
  have l: "0 \<le> ?l"
    using p by (intro foldl_wilder_nonneg divide_nonneg_nonneg sum_list_nonneg) (auto simp: loss_of_nonneg)
  have nz: "1 + ?g / ?l \<noteq> 0"
  proof -
    have "0 \<le> ?g / ?l" using g l by simp
    then show ?thesis by linarith
  qed
  have "CalculateRSI klines (int p) = Some (RSI_spec klines p)"
    unfolding CalculateRSI_def
    apply (simp only: l1 l2)
    using p(2) lt nz apply (simp add: fdiv_def RSI_spec_def Let_def del: upt_Suc)
    done
  then show ?thesis using p(1) by simp
qed

lemma sum_list_all_zero: "\<forall>x\<in>set xs. f x = 0 \<Longrightarrow> (\<Sum>x\<leftarrow>xs. f x) = (0 :: real)"
  by (induction xs) simp_all

lemma RSI_spec_increasing:
  assumes "0 < p" "p < length klines" "sorted_wrt (<) (map Close klines)"
  shows "RSI_spec klines p = 100"
proof -
  have up: "loss_of (delta klines j) = 0" if "0 < j" "j < length klines" for j
  proof -
    have "(map Close klines) ! (j - 1) < (map Close klines) ! j"
      using assms(3) that by (intro sorted_wrt_nth_less) simp_all
    then show ?thesis using that by (simp add: loss_of_def delta_def)
  qed
  have "(\<Sum>j\<leftarrow>[1..<p + 1]. loss_of (delta klines j)) = 0"
    using assms(2) by (intro sum_list_all_zero) (auto simp: up)
  moreover have "foldl (\<lambda>avg j. wilder p avg (loss_of (delta klines j))) 0 [p + 1..<length klines] = 0"
    by (intro foldl_wilder_zero) (auto simp: up)
  ultimately show ?thesis by (simp add: RSI_spec_def Let_def del: upt_Suc)
qed

text \<open>
  C3: on a series of more than \<open>period\<close> candles (\<open>period\<close> positive), \<open>CalculateRSI\<close> is
  Wilder's method: the average gain and the average loss are seeded from the changes at the
  indices 1 to \<open>period\<close>, each later index updates the matching average with its
  contribution and the other one with 0, and the result is 100 when the final average loss is
  0 and \<open>100 - 100 / (1 + avgGain / avgLoss)\<close> otherwise. On strictly increasing closes the
  result is exactly 100.
\<close>

theorem CalculateRSI_wilder:
  "(0 < period \<and> period < int (length klines) \<longrightarrow>
      CalculateRSI klines period = Some (RSI_spec klines (nat period))) \<and>
   (0 < period \<and> period < int (length klines) \<and> sorted_wrt (<) (map Close klines) \<longrightarrow>
      CalculateRSI klines period = Some 100)"
proof (intro conjI impI)
  assume "0 < period \<and> period < int (length klines)"
  then show "CalculateRSI klines period = Some (RSI_spec klines (nat period))"
    by (simp add: CalculateRSI_spec)
next
  assume a: "0 < period \<and> period < int (length klines) \<and> sorted_wrt (<) (map Close klines)"
  then have "CalculateRSI klines period = Some (RSI_spec klines (nat period))"
    by (simp add: CalculateRSI_spec)
  moreover have "RSI_spec klines (nat period) = 100"
    using a by (intro RSI_spec_increasing) (simp_all add: nat_less_iff)
  ultimately show "CalculateRSI klines period = Some 100" by simp
qed

theorem CalculateRSI_wilder_witness:
  "CalculateRSI (map candle [1, 2, 1, 4, 3, 7]) 3
     = Some (RSI_spec (map candle [1, 2, 1, 4, 3, 7]) (nat 3)) \<and>
   RSI_spec (map candle [1, 2, 1, 4, 3, 7]) (nat 3) = 2600 / 31 \<and>
   CalculateRSI (map candle [1, 2, 3, 5, 8]) 3 = Some 100"
proof -
  have "CalculateRSI (map candle [1, 2, 1, 4, 3, 7]) 3
     = Some (RSI_spec (map candle [1, 2, 1, 4, 3, 7]) (nat 3))"
    using CalculateRSI_wilder [of 3 "map candle [1, 2, 1, 4, 3, 7]", THEN conjunct1] by simp
  moreover have "RSI_spec (map candle [1, 2, 1, 4, 3, 7]) (nat 3) = 2600 / 31"
    by (simp add: RSI_spec_def candle_def upt_conv_Cons delta_def gain_of_def loss_of_def wilder_def)
  moreover have "CalculateRSI (map candle [1, 2, 3, 5, 8]) 3 = Some 100"
    using CalculateRSI_wilder [of 3 "map candle [1, 2, 3, 5, 8]", THEN conjunct2]
    by (simp add: candle_def)
  ultimately show ?thesis by simp
qed

section \<open>Bollinger bands\<close>

lemma CalculateBOLL_spec:
  assumes "0 < period" "period \<le> int (length klines)"
  shows "CalculateBOLL klines period multiplier = Some (BOLL_spec klines (nat period) multiplier)"
proof -
  obtain p where p: "period = int p" "0 < p" "p \<le> length klines"
    using assms by (rule int_nat_period)
  let ?n = "length klines"
  let ?w = "drop (?n - p) klines"
  let ?sma = "sum_list (map Close ?w) / real p"
  let ?var = "sum_list (map (\<lambda>k. (Close k - ?sma) * (Close k - ?sma)) ?w)"
  have lo: "int ?n - int p = int (?n - p)" using p by simp
  have l1: "for_loop (int ?n - int p) (int ?n)
              (\<lambda>i sum. do { k \<leftarrow> slice_at klines i; Some (sum + Close k) }) 0
            = Some (sum_list (map Close ?w))"
    unfolding lo using sum_loop [of ?n klines "?n - p" Close 0] by simp
  have l2: "for_loop (int ?n - int p) (int ?n)
              (\<lambda>i variance. do { k \<leftarrow> slice_at klines i;
                                  Some (variance + (Close k - ?sma) * (Close k - ?sma)) }) 0
            = Some ?var"
    unfolding lo
    using sum_loop [of ?n klines "?n - p" "\<lambda>k. (Close k - ?sma) * (Close k - ?sma)" 0] by simp
  have nonneg: "0 \<le> ?var / real p"
    by (intro divide_nonneg_nonneg sum_list_nonneg) auto
  have var: "?var = sum_list (map (\<lambda>c. (c - ?sma)\<^sup>2) (map Close ?w))"
    by (simp add: o_def power2_eq_square)
  show ?thesis
    using p nonneg
    by (simp add: CalculateBOLL_def l1 l2 fdiv_def fsqrt_def BOLL_spec_def Let_def var
        del: map_map)
qed

text \<open>
  C4: on a series of at least \<open>period\<close> candles (\<open>period\<close> positive), the middle band of
  \<open>CalculateBOLL\<close> is the mean of the last \<open>period\<close> closes and the outer bands lie
  \<open>multiplier\<close> population standard deviations (divisor \<open>period\<close>) above and below it; for
  the closes 10, 10, 10, 10, 10 and period 5 the three bands are 10.
\<close>

theorem CalculateBOLL_population_bands:
  "(0 < period \<and> period \<le> int (length klines) \<longrightarrow>
      CalculateBOLL klines period multiplier = Some (BOLL_spec klines (nat period) multiplier)) \<and>
   (map Close klines = [10, 10, 10, 10, 10] \<longrightarrow>
      CalculateBOLL klines 5 multiplier = Some (10, 10, 10))"
proof (intro conjI impI)
  assume "0 < period \<and> period \<le> int (length klines)"
  then show "CalculateBOLL klines period multiplier = Some (BOLL_spec klines (nat period) multiplier)"
    by (simp add: CalculateBOLL_spec)
next
  assume a: "map Close klines = [10, 10, 10, 10, 10]"
  then have "length (map Close klines) = 5" by simp
  then have len: "length klines = 5" by simp
  then have "CalculateBOLL klines 5 multiplier = Some (BOLL_spec klines (nat 5) multiplier)"
    by (intro CalculateBOLL_spec) simp_all
  moreover have "BOLL_spec klines 5 multiplier = (10, 10, 10)"
    using a len by (simp add: BOLL_spec_def)
  ultimately show "CalculateBOLL klines 5 multiplier = Some (10, 10, 10)" by simp
qed

theorem CalculateBOLL_population_bands_witness:
  "CalculateBOLL (map candle [1, 1, 3, 3]) 4 2 = Some (BOLL_spec (map candle [1, 1, 3, 3]) (nat 4) 2) \<and>
   BOLL_spec (map candle [1, 1, 3, 3]) (nat 4) 2 = (4, 2, 0) \<and>
   CalculateBOLL (map candle [10, 10, 10, 10, 10]) 5 2 = Some (10, 10, 10)"
proof -
  have "CalculateBOLL (map candle [1, 1, 3, 3]) 4 2 = Some (BOLL_spec (map candle [1, 1, 3, 3]) (nat 4) 2)"
    using CalculateBOLL_population_bands [of 4 "map candle [1, 1, 3, 3]" 2] by simp
  moreover have "BOLL_spec (map candle [1, 1, 3, 3]) (nat 4) 2 = (4, 2, 0)"
    by (simp add: BOLL_spec_def candle_def)
  moreover have "CalculateBOLL (map candle [10, 10, 10, 10, 10]) 5 2 = Some (10, 10, 10)"
    using CalculateBOLL_population_bands [of 5 "map candle [10, 10, 10, 10, 10]" 2, THEN conjunct2]
    by (simp add: candle_def)
  ultimately show ?thesis by simp
qed

section \<open>Scoring\<close>

text \<open>
  C5: \<open>ScoreFromError\<close> is a step function of the absolute error with inclusive upper
  bounds 0.1, 1, 5 and 10 for the scores 100, 80, 60 and 40, and 0 above 10; its value is
  always one of 0, 40, 60, 80 and 100.
\<close>

theorem ScoreFromError_tiers:
  "ScoreFromError e =
     (if \<bar>e\<bar> \<le> 0.1 then 100 else if \<bar>e\<bar> \<le> 1 then 80 else if \<bar>e\<bar> \<le> 5 then 60
      else if \<bar>e\<bar> \<le> 10 then 40 else 0) \<and>
   ScoreFromError 0.1 = 100 \<and> ScoreFromError 0.10001 = 80 \<and> ScoreFromError 1.0 = 80 \<and>
   ScoreFromError 1.00001 = 60 \<and> ScoreFromError 10.0 = 40 \<and> ScoreFromError 10.00001 = 0 \<and>
   ScoreFromError e \<in> {0, 40, 60, 80, 100}"
  by (simp add: ScoreFromError_def)

theorem ScoreFromError_tiers_witness:
  "ScoreFromError (-3) = 60 \<and> ScoreFromError 7 = 40 \<and> ScoreFromError (-0.1) = 100 \<and>
   ScoreFromError 11 = 0"
  using ScoreFromError_tiers [of "-3"] ScoreFromError_tiers [of 7] ScoreFromError_tiers [of "-0.1"]
    ScoreFromError_tiers [of 11]
  by simp

text \<open>
  C6: \<open>CalculateError\<close> is 0 for two zeros, 100 for an expected zero and another answer,
  and otherwise the distance relative to the expected value, in percent; it always returns
  a number, so its division never meets a zero divisor.
\<close>

theorem CalculateError_cases:
  "CalculateError expected actual =
     Some (if expected = 0 then (if actual = 0 then 0 else 100)
           else \<bar>expected - actual\<bar> / \<bar>expected\<bar> * 100) \<and>
   CalculateError 0 0 = Some 0 \<and> CalculateError 0 5 = Some 100 \<and>
   CalculateError 100 101 = Some 1.0"
  by (simp add: CalculateError_def fdiv_def)

theorem CalculateError_cases_witness:
  "CalculateError 50 45 = Some 10 \<and> CalculateError 0 (-2) = Some 100 \<and>
   CalculateError (-4) (-4) = Some 0"
  using CalculateError_cases [of 50 45] CalculateError_cases [of 0 "-2"]
    CalculateError_cases [of "-4" "-4"]
  by simp

section \<open>Statistics per model\<close>

lemma average_mean: "xs \<noteq> [] \<Longrightarrow> average xs = Some (mean xs)"
  by (simp add: average_def fdiv_def mean_def foldl_plus_sum_list)

lemma foldl_squares:
  "foldl (\<lambda>s v. let diff = v - a in s + diff * diff) s0 xs = s0 + (\<Sum>x\<leftarrow>xs. (x - (a :: real))\<^sup>2)"
  by (induction xs arbitrary: s0) (simp_all add: Let_def power2_eq_square add.assoc)

lemma stdDev_sample: "stdDev xs = Some (sample_stddev xs)"
proof (cases "length xs < 2")
  case True
  then show ?thesis by (simp add: stdDev_def sample_stddev_def)
next
  case False
  then have ne: "xs \<noteq> []" by auto
  have "0 \<le> (\<Sum>x\<leftarrow>xs. (x - mean xs)\<^sup>2) / (real (length xs) - 1)"
    using False by (intro divide_nonneg_nonneg sum_list_nonneg) auto
  then show ?thesis
    using False
    by (simp add: stdDev_def sample_stddev_def average_mean [OF ne] foldl_squares fdiv_def
        fsqrt_def)
qed

lemma sample_stddev_nonneg: "0 \<le> sample_stddev xs"
proof -
  have "0 \<le> (\<Sum>x\<leftarrow>xs. (x - mean xs)\<^sup>2)" by (intro sum_list_nonneg) auto
  then show ?thesis by (simp add: sample_stddev_def)
qed

lemma for_range_averages:
  "for_range isums
     (\<lambda>(k, sum) stat.
        let count = map_index 0 counts k
        in if count > 0 then do {
             avg \<leftarrow> fdiv sum (real count);
             Some (stat\<lparr>IndicatorAvgs := map_assign (IndicatorAvgs stat) k avg\<rparr>)
           } else Some stat) stat
   = Some (stat\<lparr>IndicatorAvgs :=
        foldl (\<lambda>avgs (k, sum). if map_index 0 counts k > 0
                 then map_assign avgs k (sum / real (map_index 0 counts k)) else avgs)
          (IndicatorAvgs stat) isums\<rparr>)"
  by (induction isums arbitrary: stat) (auto simp: fdiv_def Let_def)

lemma average_total: "average xs = Some (if xs = [] then 0 else mean xs)"
  by (simp add: average_mean) (simp add: average_def)

lemma summarize_closed:
  "summarize (stat, scores, latencies, isums, counts) =
     Some (if scores = [] then stat
           else stat\<lparr>AvgScore := mean scores, MinScore := min_values scores,
                  MaxScore := max_values scores, StdDev := sample_stddev scores,
                  AvgLatencyMs := (if latencies = [] then 0 else mean latencies),
                  MinLatencyMs := min_values latencies, MaxLatencyMs := max_values latencies,
                  Consistency :=
                    (if mean scores > 0
                     then max 0 (100 - sample_stddev scores / mean scores * 100)
                     else Consistency stat),
                  IndicatorAvgs :=
                    foldl (\<lambda>avgs (k, sum). if map_index 0 counts k > 0
                             then map_assign avgs k (sum / real (map_index 0 counts k)) else avgs)
                      (IndicatorAvgs stat) isums\<rparr>)"
proof -
  note fr = for_range_averages [of isums counts, unfolded Let_def]
  show ?thesis
    by (cases "scores = []"; cases "0 < mean scores")
      (simp_all add: fr average_total stdDev_sample fdiv_def Let_def max_def field_simps)
qed

lemma count_loop:
  "foldl count_result (st, sc, la, su, co) rs = (st', sc', la', su', co') \<Longrightarrow>
   st' = st\<lparr>SuccessCount := SuccessCount st + length (filter succeeded rs),
            FailureCount := FailureCount st + length (filter (\<lambda>r. \<not> succeeded r) rs)\<rparr> \<and>
   sc' = sc @ map TotalScore (filter succeeded rs) \<and>
   la' = la @ map latency_ms (filter succeeded rs)"
proof (induction rs arbitrary: st sc la su co)
  case Nil
  then show ?case by simp
next
  case (Cons r rs)
  obtain st1 sc1 la1 su1 co1 where
    step: "count_result (st, sc, la, su, co) r = (st1, sc1, la1, su1, co1)"
    by (metis prod_cases5)
  have rest: "foldl count_result (st1, sc1, la1, su1, co1) rs = (st', sc', la', su', co')"
    using Cons.prems step by simp
  have one: "st1 = (if succeeded r then st\<lparr>SuccessCount := SuccessCount st + 1\<rparr>
                    else st\<lparr>FailureCount := FailureCount st + 1\<rparr>) \<and>
             sc1 = (if succeeded r then sc @ [TotalScore r] else sc) \<and>
             la1 = (if succeeded r then la @ [latency_ms r] else la)"
    using step by (auto simp: succeeded_def latency_ms_def Let_def split: option.splits)
  show ?case
    using Cons.IH [OF rest] one by auto
qed

lemma count_loop_indicators:
  "snd (snd (snd (foldl count_result (st, sc, la, su, co) rs))) =
   snd (snd (snd (foldl count_result (st2, sc2, la2, su, co) (filter succeeded rs))))"
proof (induction rs arbitrary: st sc la su co st2 sc2 la2)
  case Nil
  then show ?case by simp
next
  case (Cons r rs)
  show ?case
  proof (cases "succeeded r")
    case False
    then have "count_result (st, sc, la, su, co) r
               = (st\<lparr>FailureCount := FailureCount st + 1\<rparr>, sc, la, su, co)"
      by (simp add: succeeded_def)
    then show ?thesis using False Cons.IH by simp
  next
    case True
    obtain st1 sc1 la1 su1 co1 where
      a: "count_result (st, sc, la, su, co) r = (st1, sc1, la1, su1, co1)"
      by (metis prod_cases5)
    obtain st3 sc3 la3 su3 co3 where
      b: "count_result (st2, sc2, la2, su, co) r = (st3, sc3, la3, su3, co3)"
      by (metis prod_cases5)
    have "su3 = su1 \<and> co3 = co1"
      using a b True by (auto simp: succeeded_def Let_def split: option.splits)
    then show ?thesis using True a b Cons.IH [of st1 sc1 la1 su1 co1 st3 sc3 la3] by simp
  qed
qed

lemma model_statistics_loop:
  obtains su co where
    "foldl count_result
       (case i of None \<Rightarrow> new_ModelStatistics m (length rs)
        | Some x \<Rightarrow> new_ModelStatistics m (length rs)\<lparr>stat_ModelInfo := x\<rparr>, [], [], [], []) rs
     = ((case i of None \<Rightarrow> new_ModelStatistics m (length rs)
         | Some x \<Rightarrow> new_ModelStatistics m (length rs)\<lparr>stat_ModelInfo := x\<rparr>)
        \<lparr>SuccessCount := length (filter succeeded rs),
         FailureCount := length (filter (\<lambda>r. \<not> succeeded r) rs)\<rparr>,
        map TotalScore (filter succeeded rs), map latency_ms (filter succeeded rs), su, co)"
    "(su, co) = snd (snd (snd (foldl count_result
        (new_ModelStatistics [] 0, [], [], [], []) (filter succeeded rs))))"
proof -
  let ?st0 = "case i of None \<Rightarrow> new_ModelStatistics m (length rs)
        | Some x \<Rightarrow> new_ModelStatistics m (length rs)\<lparr>stat_ModelInfo := x\<rparr>"
  obtain st' sc' la' su' co' where
    l: "foldl count_result (?st0, [], [], [], []) rs = (st', sc', la', su', co')"
    by (metis prod_cases5)
  have z: "SuccessCount ?st0 = 0" "FailureCount ?st0 = 0"
    by (simp_all add: new_ModelStatistics_def split: option.splits)
  have a: "foldl count_result (?st0, [], [], [], []) rs
     = (?st0\<lparr>SuccessCount := length (filter succeeded rs),
         FailureCount := length (filter (\<lambda>r. \<not> succeeded r) rs)\<rparr>,
        map TotalScore (filter succeeded rs), map latency_ms (filter succeeded rs), su', co')"
    using count_loop [OF l] l z by simp
  have "(su', co') = snd (snd (snd (foldl count_result (?st0, [], [], [], []) rs)))"
    using l by simp
  also have "\<dots> = snd (snd (snd (foldl count_result
        (new_ModelStatistics [] 0, [], [], [], []) (filter succeeded rs))))"
    by (rule count_loop_indicators)
  finally show ?thesis using a that by blast
qed

lemma model_statistics_fields:
  "\<exists>st. model_statistics m i rs = Some st \<and> stat_Model st = m \<and>
     stat_ModelInfo st = (case i of None \<Rightarrow> zero_ModelInfo | Some x \<Rightarrow> x) \<and>
     RunCount st = length rs \<and>
     SuccessCount st = length (filter succeeded rs) \<and>
     FailureCount st = length (filter (\<lambda>r. \<not> succeeded r) rs) \<and>
     (filter succeeded rs = [] \<longrightarrow>
        distribution st = ((0, 0, 0, 0), (0, 0, 0), 0, [])) \<and>
     (filter succeeded rs \<noteq> [] \<longrightarrow>
        AvgScore st = mean (map TotalScore (filter succeeded rs)) \<and>
        StdDev st = sample_stddev (map TotalScore (filter succeeded rs)) \<and>
        Consistency st =
          (if AvgScore st > 0 then max 0 (100 - StdDev st / AvgScore st * 100) else 0))"
proof -
  obtain su co where l: "foldl count_result
       (case i of None \<Rightarrow> new_ModelStatistics m (length rs)
        | Some x \<Rightarrow> new_ModelStatistics m (length rs)\<lparr>stat_ModelInfo := x\<rparr>, [], [], [], []) rs
     = ((case i of None \<Rightarrow> new_ModelStatistics m (length rs)
         | Some x \<Rightarrow> new_ModelStatistics m (length rs)\<lparr>stat_ModelInfo := x\<rparr>)
        \<lparr>SuccessCount := length (filter succeeded rs),
         FailureCount := length (filter (\<lambda>r. \<not> succeeded r) rs)\<rparr>,
        map TotalScore (filter succeeded rs), map latency_ms (filter succeeded rs), su, co)"
    by (rule model_statistics_loop)
  show ?thesis
    unfolding model_statistics_def Let_def l summarize_closed
    by (cases i) (simp_all add: new_ModelStatistics_def distribution_def)
qed

lemma model_statistics_distribution:
  "map_option distribution (model_statistics m i rs) =
   map_option distribution (model_statistics m2 i2 (filter succeeded rs))"
proof -
  let ?ok = "filter succeeded rs"
  obtain su co where l: "foldl count_result
       (case i of None \<Rightarrow> new_ModelStatistics m (length rs)
        | Some x \<Rightarrow> new_ModelStatistics m (length rs)\<lparr>stat_ModelInfo := x\<rparr>, [], [], [], []) rs
     = ((case i of None \<Rightarrow> new_ModelStatistics m (length rs)
         | Some x \<Rightarrow> new_ModelStatistics m (length rs)\<lparr>stat_ModelInfo := x\<rparr>)
        \<lparr>SuccessCount := length (filter succeeded rs),
         FailureCount := length (filter (\<lambda>r. \<not> succeeded r) rs)\<rparr>,
        map TotalScore (filter succeeded rs), map latency_ms (filter succeeded rs), su, co)"
    and s: "(su, co) = snd (snd (snd (foldl count_result
        (new_ModelStatistics [] 0, [], [], [], []) (filter succeeded rs))))"
    by (rule model_statistics_loop)
  obtain su2 co2 where l2: "foldl count_result
       (case i2 of None \<Rightarrow> new_ModelStatistics m2 (length ?ok)
        | Some x \<Rightarrow> new_ModelStatistics m2 (length ?ok)\<lparr>stat_ModelInfo := x\<rparr>, [], [], [], []) ?ok
     = ((case i2 of None \<Rightarrow> new_ModelStatistics m2 (length ?ok)
         | Some x \<Rightarrow> new_ModelStatistics m2 (length ?ok)\<lparr>stat_ModelInfo := x\<rparr>)
        \<lparr>SuccessCount := length (filter succeeded ?ok),
         FailureCount := length (filter (\<lambda>r. \<not> succeeded r) ?ok)\<rparr>,
        map TotalScore (filter succeeded ?ok), map latency_ms (filter succeeded ?ok), su2, co2)"
    and s2: "(su2, co2) = snd (snd (snd (foldl count_result
        (new_ModelStatistics [] 0, [], [], [], []) (filter succeeded ?ok))))"
    by (rule model_statistics_loop)
  have same: "su2 = su" "co2 = co" using s s2 by (simp_all add: prod_eq_iff)
  show ?thesis
    unfolding model_statistics_def Let_def l l2 summarize_closed same
    by (cases i; cases i2) (simp_all add: new_ModelStatistics_def distribution_def)
qed

lemma map_of_map_assign: "map_of (map_assign m k v) = (map_of m)(k \<mapsto> v)"
  by (induction m) auto

lemma keys_map_assign:
  "map fst (map_assign m k v) = (if k \<in> fst ` set m then map fst m else map fst m @ [k])"
proof (induction m)
  case Nil
  then show ?case by simp
next
  case (Cons a m)
  then show ?case by (cases a) force
qed

lemma map_index_map_of: "map_index z m k = (case map_of m k of None \<Rightarrow> z | Some v \<Rightarrow> v)"
  by (simp add: map_index_def)

lemma grouped:
  fixes results :: "BenchResult list"
  defines "G \<equiv> foldl (\<lambda>m r. map_assign m (Model r) (map_index [] m (Model r) @ [r])) []"
  shows "distinct (map fst (G results)) \<and> fst ` set (G results) = Model ` set results \<and>
         (\<forall>m. map_of (G results) m =
            (if m \<in> Model ` set results then Some (filter (\<lambda>r. Model r = m) results) else None))"
proof (induction results rule: rev_induct)
  case Nil
  then show ?case by (simp add: G_def)
next
  case (snoc r rs)
  have step: "G (rs @ [r]) = map_assign (G rs) (Model r) (map_index [] (G rs) (Model r) @ [r])"
    by (simp add: G_def)
  have keys: "fst ` set (G rs) = Model ` set rs" and d: "distinct (map fst (G rs))"
    and mo: "\<And>m. map_of (G rs) m =
            (if m \<in> Model ` set rs then Some (filter (\<lambda>r. Model r = m) rs) else None)"
    using snoc.IH by auto
  have "distinct (map fst (G (rs @ [r])))"
    unfolding step keys_map_assign using d by auto
  moreover have "fst ` set (G (rs @ [r])) = Model ` set (rs @ [r])"
  proof -
    have "fst ` set (G (rs @ [r])) = set (map fst (G (rs @ [r])))" by simp
    also have "\<dots> = insert (Model r) (fst ` set (G rs))"
      unfolding step keys_map_assign by auto
    finally show ?thesis using keys by auto
  qed
  moreover have "map_of (G (rs @ [r])) m =
            (if m \<in> Model ` set (rs @ [r]) then Some (filter (\<lambda>r. Model r = m) (rs @ [r])) else None)"
    for m
    unfolding step map_of_map_assign map_index_map_of
    by (auto simp: mo filter_empty_conv empty_filter_conv image_iff)
  ultimately show ?case by blast
qed

lemma infos_own:
  fixes results :: "BenchResult list"
  defines "I \<equiv> foldl (\<lambda>m r. case ModelInfo r of None \<Rightarrow> m | Some info \<Rightarrow> map_assign m (Model r) info) []"
  shows "map_of (I results) m = map_of (I (filter (\<lambda>r. Model r = m) results)) m"
proof -
  let ?step = "\<lambda>m r. case ModelInfo r of None \<Rightarrow> m | Some info \<Rightarrow> map_assign m (Model r) info"
  let ?j = "\<lambda>(out :: ModelInfo option) r. if Model r = m
               then (case ModelInfo r of None \<Rightarrow> out | Some info \<Rightarrow> Some info) else out"
  have a: "map_of (foldl ?step acc rs) m = foldl ?j (map_of acc m) rs" for acc rs
    by (induction rs arbitrary: acc) (auto simp: map_of_map_assign split: option.splits)
  have b: "foldl ?j out (filter (\<lambda>r. Model r = m) rs) = foldl ?j out rs" for out rs
    by (induction rs arbitrary: out) auto
  show ?thesis unfolding I_def a b ..
qed

lemma for_range_collect:
  assumes "\<forall>x\<in>set xs. F x \<noteq> None"
  shows "for_range xs (\<lambda>x stats. do { stat \<leftarrow> F x; Some (stats @ [stat]) }) acc
         = Some (acc @ map (\<lambda>x. the (F x)) xs)"
  using assms by (induction xs arbitrary: acc) auto

lemma model_statistics_total: "\<exists>st. model_statistics m i rs = Some st"
  using model_statistics_fields [of m i rs] by blast

lemma calculateStatistics_closed:
  "calculateStatistics results =
     Some (sort_key (\<lambda>stat. - AvgScore stat)
       (map (\<lambda>(model, rs). the (model_statistics model
               (map_of (foldl (\<lambda>m r. case ModelInfo r of None \<Rightarrow> m
                                | Some info \<Rightarrow> map_assign m (Model r) info) [] results) model) rs))
          (foldl (\<lambda>m r. map_assign m (Model r) (map_index [] m (Model r) @ [r])) [] results)))"
proof -
  let ?I = "foldl (\<lambda>m r. case ModelInfo r of None \<Rightarrow> m
                                | Some info \<Rightarrow> map_assign m (Model r) info) [] results"
  let ?G = "foldl (\<lambda>m r. map_assign m (Model r) (map_index [] m (Model r) @ [r])) [] results"
  have "for_range ?G (\<lambda>x stats. do {
            stat \<leftarrow> (case x of (model, rs) \<Rightarrow> model_statistics model (map_of ?I model) rs);
            Some (stats @ [stat]) }) []
        = Some ([] @ map (\<lambda>x. the (case x of (model, rs) \<Rightarrow> model_statistics model (map_of ?I model) rs)) ?G)"
    by (rule for_range_collect) (simp add: split_def model_statistics_total)
  moreover have "(\<lambda>x stats. do {
            stat \<leftarrow> (case x of (model, rs) \<Rightarrow> model_statistics model (map_of ?I model) rs);
            Some (stats @ [stat]) })
        = (\<lambda>(model, rs) stats. do {
                      stat \<leftarrow> model_statistics model (map_of ?I model) rs;
                      Some (stats @ [stat]) })"
    by (auto simp: fun_eq_iff)
  moreover have "(\<lambda>x. the (case x of (model, rs) \<Rightarrow> model_statistics model (map_of ?I model) rs))
        = (\<lambda>(model, rs). the (model_statistics model (map_of ?I model) rs))"
    by (auto simp: fun_eq_iff)
  ultimately show ?thesis
    unfolding calculateStatistics_def Let_def by simp
qed

lemma calculateStatistics_members:
  assumes "calculateStatistics results = Some stats"
  shows "stat_Model ` set stats = Model ` set results"
    and "stat \<in> set stats \<Longrightarrow>
         model_statistics (stat_Model stat)
           (map_of (foldl (\<lambda>m r. case ModelInfo r of None \<Rightarrow> m
                             | Some info \<Rightarrow> map_assign m (Model r) info) []
                     (filter (\<lambda>r. Model r = stat_Model stat) results)) (stat_Model stat))
           (filter (\<lambda>r. Model r = stat_Model stat) results) = Some stat"
    and "distinct (map stat_Model stats)"
proof -
  let ?I = "foldl (\<lambda>m r. case ModelInfo r of None \<Rightarrow> m
                                | Some info \<Rightarrow> map_assign m (Model r) info) [] results"
  let ?G = "foldl (\<lambda>m r. map_assign m (Model r) (map_index [] m (Model r) @ [r])) [] results"
  let ?f = "\<lambda>(model, rs). the (model_statistics model (map_of ?I model) rs)"
  have stats: "stats = sort_key (\<lambda>stat. - AvgScore stat) (map ?f ?G)"
    using assms calculateStatistics_closed [of results] by simp
  have G: "distinct (map fst ?G)" "fst ` set ?G = Model ` set results"
    "\<And>m. map_of ?G m =
            (if m \<in> Model ` set results then Some (filter (\<lambda>r. Model r = m) results) else None)"
    using grouped [of results] by auto
  have entry: "rs = filter (\<lambda>r. Model r = m) results" if "(m, rs) \<in> set ?G" for m rs
  proof -
    have "map_of ?G m = Some rs" using that G(1) by simp
    then show ?thesis using G(3) [of m] by (auto split: if_splits)
  qed
  have f1: "Some (the (model_statistics m (map_of ?I m) rs)) = model_statistics m (map_of ?I m) rs"
    for m rs
    using model_statistics_total [of m "map_of ?I m" rs] by auto
  have f2: "stat_Model (the (model_statistics m (map_of ?I m) rs)) = m" for m rs
    using model_statistics_fields [of m "map_of ?I m" rs] by auto
  have name: "map stat_Model (map ?f ?G) = map fst ?G"
    by (simp add: split_def f2)
  have "set (map stat_Model stats) = set (map stat_Model (map ?f ?G))"
    unfolding stats by (simp only: set_map set_sort)
  then show "stat_Model ` set stats = Model ` set results"
    unfolding name using G(2) by simp
  have "mset (map stat_Model stats) = mset (map stat_Model (map ?f ?G))"
    unfolding stats by (simp only: mset_map mset_sort)
  then have "distinct (map stat_Model stats) = distinct (map stat_Model (map ?f ?G))"
    by (rule mset_eq_imp_distinct_iff)
  then show "distinct (map stat_Model stats)"
    unfolding name using G(1) by simp
  assume "stat \<in> set stats"
  then have "stat \<in> set (map ?f ?G)" unfolding stats by simp
  then obtain m rs where mem: "(m, rs) \<in> set ?G" and st: "stat = ?f (m, rs)" by auto
  have rs: "rs = filter (\<lambda>r. Model r = m) results" using entry [OF mem] .
  have m: "stat_Model stat = m" using f2 [of m rs] st by simp
  have "model_statistics m (map_of ?I m) rs = Some stat" using f1 [of m rs] st by simp
  then show "model_statistics (stat_Model stat)
           (map_of (foldl (\<lambda>m r. case ModelInfo r of None \<Rightarrow> m
                             | Some info \<Rightarrow> map_assign m (Model r) info) []
                     (filter (\<lambda>r. Model r = stat_Model stat) results)) (stat_Model stat))
           (filter (\<lambda>r. Model r = stat_Model stat) results) = Some stat"
    unfolding m rs using infos_own [of results m] by simp
qed

lemma distinct_singleton: "distinct xs \<Longrightarrow> set xs = {x} \<Longrightarrow> xs = [x]"
proof -
  assume d: "distinct xs" and s: "set xs = {x}"
  then have "length xs = 1" using distinct_card [OF d] by simp
  then obtain y where "xs = [y]" by (cases xs) auto
  then show ?thesis using s by simp
qed

lemma calculateStatistics_single:
  assumes "rs \<noteq> []" "\<forall>r\<in>set rs. Model r = m"
  shows "\<exists>st. calculateStatistics rs = Some [st] \<and>
           model_statistics m
             (map_of (foldl (\<lambda>m r. case ModelInfo r of None \<Rightarrow> m
                               | Some info \<Rightarrow> map_assign m (Model r) info) [] rs) m) rs = Some st"
proof -
  obtain stats where c: "calculateStatistics rs = Some stats"
    using calculateStatistics_closed [of rs] by simp
  have ms: "Model ` set rs = {m}" using assms by (cases rs) auto
  have own: "filter (\<lambda>r. Model r = m) rs = rs" using assms(2) by (simp add: filter_id_conv)
  have "map stat_Model stats = [m]"
    using calculateStatistics_members(1,3) [OF c] ms by (intro distinct_singleton) simp_all
  then obtain st where st: "stats = [st]" "stat_Model st = m" by auto
  have "model_statistics (stat_Model st)
           (map_of (foldl (\<lambda>m r. case ModelInfo r of None \<Rightarrow> m
                             | Some info \<Rightarrow> map_assign m (Model r) info) []
                     (filter (\<lambda>r. Model r = stat_Model st) rs)) (stat_Model st))
           (filter (\<lambda>r. Model r = stat_Model st) rs) = Some st"
    using calculateStatistics_members(2) [OF c, of st] st by simp
  then show ?thesis using c st own by simp
qed

lemma calculateStatistics_member_fields:
  assumes c: "calculateStatistics results = Some stats" and mem: "stat \<in> set stats"
  defines "own \<equiv> filter (\<lambda>r. Model r = stat_Model stat) results"
  defines "ok \<equiv> filter succeeded own"
  shows "RunCount stat = length own"
    and "SuccessCount stat = length ok"
    and "FailureCount stat = length (filter (\<lambda>r. \<not> succeeded r) own)"
    and "calculateStatistics own = Some [stat]"
    and "ok = [] \<Longrightarrow> distribution stat = ((0, 0, 0, 0), (0, 0, 0), 0, [])"
    and "ok \<noteq> [] \<Longrightarrow> map_option (map distribution) (calculateStatistics ok) = Some [distribution stat]"
    and "ok \<noteq> [] \<Longrightarrow> AvgScore stat = mean (map TotalScore ok) \<and>
           StdDev stat = sample_stddev (map TotalScore ok) \<and>
           Consistency stat =
             (if AvgScore stat > 0 then max 0 (100 - StdDev stat / AvgScore stat * 100) else 0)"
proof -
  let ?m = "stat_Model stat"
  let ?I = "\<lambda>rs. map_of (foldl (\<lambda>m r. case ModelInfo r of None \<Rightarrow> m
                               | Some info \<Rightarrow> map_assign m (Model r) info) [] rs) ?m"
  have ms: "model_statistics ?m (?I own) own = Some stat"
    using calculateStatistics_members(2) [OF c mem] by (simp add: own_def)
  have fields: "\<exists>st. model_statistics ?m (?I own) own = Some st \<and> stat_Model st = ?m \<and>
     stat_ModelInfo st = (case ?I own of None \<Rightarrow> zero_ModelInfo | Some x \<Rightarrow> x) \<and>
     RunCount st = length own \<and>
     SuccessCount st = length (filter succeeded own) \<and>
     FailureCount st = length (filter (\<lambda>r. \<not> succeeded r) own) \<and>
     (filter succeeded own = [] \<longrightarrow>
        distribution st = ((0, 0, 0, 0), (0, 0, 0), 0, [])) \<and>
     (filter succeeded own \<noteq> [] \<longrightarrow>
        AvgScore st = mean (map TotalScore (filter succeeded own)) \<and>
        StdDev st = sample_stddev (map TotalScore (filter succeeded own)) \<and>
        Consistency st =
          (if AvgScore st > 0 then max 0 (100 - StdDev st / AvgScore st * 100) else 0))"
    by (rule model_statistics_fields)
  show "RunCount stat = length own" using fields ms by auto
  show "SuccessCount stat = length ok" using fields ms by (auto simp: ok_def)
  show "FailureCount stat = length (filter (\<lambda>r. \<not> succeeded r) own)" using fields ms by auto
  show "ok = [] \<Longrightarrow> distribution stat = ((0, 0, 0, 0), (0, 0, 0), 0, [])"
    using fields ms by (auto simp: ok_def)
  show "ok \<noteq> [] \<Longrightarrow> AvgScore stat = mean (map TotalScore ok) \<and>
           StdDev stat = sample_stddev (map TotalScore ok) \<and>
           Consistency stat =
             (if AvgScore stat > 0 then max 0 (100 - StdDev stat / AvgScore stat * 100) else 0)"
    using fields ms by (auto simp: ok_def)
  have "?m \<in> Model ` set results"
    using calculateStatistics_members(1) [OF c] mem by auto
  then have ne: "own \<noteq> []" by (auto simp: own_def filter_empty_conv)
  have all: "\<forall>r\<in>set own. Model r = ?m" by (simp add: own_def)
  show "calculateStatistics own = Some [stat]"
    using calculateStatistics_single [OF ne all] ms by auto
  assume okne: "ok \<noteq> []"
  have allok: "\<forall>r\<in>set ok. Model r = ?m" by (simp add: ok_def own_def)
  obtain st where st: "calculateStatistics ok = Some [st]"
    "model_statistics ?m (?I ok) ok = Some st"
    using calculateStatistics_single [OF okne allok] by auto
  have "map_option distribution (model_statistics ?m (?I own) own) =
        map_option distribution (model_statistics ?m (?I ok) ok)"
    unfolding ok_def by (rule model_statistics_distribution)
  then have "distribution st = distribution stat" using ms st(2) by simp
  then show "map_option (map distribution) (calculateStatistics ok) = Some [distribution stat]"
    using st(1) by simp
qed

text \<open>
  C8: in \<open>calculateStatistics\<close> every model of the results has one record. Its run count is
  the number of results of the model, its failure count the number of those with a non-empty
  error, its success count the number of the others, and the two counts add up to the run
  count. The record is the one computed from the results of its model alone, so no result of
  another model reaches it, and its scores, deviation, latencies, consistency and averages
  per indicator are those computed from the successful results of its model alone (all 0 when
  there is none), so a failed result adds to the failure count and to nothing else.
\<close>

theorem calculateStatistics_isolation:
  "\<exists>stats. calculateStatistics results = Some stats \<and>
     stat_Model ` set stats = Model ` set results \<and>
     (\<forall>stat\<in>set stats.
        let own = filter (\<lambda>r. Model r = stat_Model stat) results;
            ok = filter (\<lambda>r. Error r = []) own
        in RunCount stat = length own \<and>
           FailureCount stat = length (filter (\<lambda>r. Error r \<noteq> []) own) \<and>
           SuccessCount stat = length ok \<and>
           SuccessCount stat + FailureCount stat = RunCount stat \<and>
           calculateStatistics own = Some [stat] \<and>
           (ok = [] \<longrightarrow> distribution stat = ((0, 0, 0, 0), (0, 0, 0), 0, [])) \<and>
           (ok \<noteq> [] \<longrightarrow>
              map_option (map distribution) (calculateStatistics ok) = Some [distribution stat]))"
proof -
  obtain stats where c: "calculateStatistics results = Some stats"
    using calculateStatistics_closed [of results] by simp
  have s: "succeeded = (\<lambda>r. Error r = [])" by (simp add: fun_eq_iff succeeded_def)
  have per: "RunCount stat = length own \<and>
           FailureCount stat = length (filter (\<lambda>r. Error r \<noteq> []) own) \<and>
           SuccessCount stat = length ok \<and>
           SuccessCount stat + FailureCount stat = RunCount stat \<and>
           calculateStatistics own = Some [stat] \<and>
           (ok = [] \<longrightarrow> distribution stat = ((0, 0, 0, 0), (0, 0, 0), 0, [])) \<and>
           (ok \<noteq> [] \<longrightarrow>
              map_option (map distribution) (calculateStatistics ok) = Some [distribution stat])"
    if mem: "stat \<in> set stats" and own: "own = filter (\<lambda>r. Model r = stat_Model stat) results"
      and ok: "ok = filter (\<lambda>r. Error r = []) own" for stat own ok
  proof -
    note f = calculateStatistics_member_fields [OF c mem, unfolded s, folded own, folded ok]
    have "length ok + length (filter (\<lambda>r. Error r \<noteq> []) own) = length own"
      unfolding ok using sum_length_filter_compl [of "\<lambda>r. Error r = []" own] by simp
    then show ?thesis using f(1-6) by simp
  qed
  show ?thesis
  proof (intro exI conjI ballI)
    show "calculateStatistics results = Some stats" by (rule c)
    show "stat_Model ` set stats = Model ` set results"
      by (rule calculateStatistics_members(1) [OF c])
    fix stat
    assume "stat \<in> set stats"
    then show "let own = filter (\<lambda>r. Model r = stat_Model stat) results;
            ok = filter (\<lambda>r. Error r = []) own
        in RunCount stat = length own \<and>
           FailureCount stat = length (filter (\<lambda>r. Error r \<noteq> []) own) \<and>
           SuccessCount stat = length ok \<and>
           SuccessCount stat + FailureCount stat = RunCount stat \<and>
           calculateStatistics own = Some [stat] \<and>
           (ok = [] \<longrightarrow> distribution stat = ((0, 0, 0, 0), (0, 0, 0), 0, [])) \<and>
           (ok \<noteq> [] \<longrightarrow>
              map_option (map distribution) (calculateStatistics ok) = Some [distribution stat])"
      unfolding Let_def by (rule per [OF _ refl refl])
  qed
qed

theorem calculateStatistics_isolation_witness:
  "\<exists>stats sa.
     calculateStatistics [run_of ''a'' 80 [], run_of ''b'' 50 [], run_of ''a'' 0 ''timeout'',
                          run_of ''a'' 80 []] = Some stats \<and>
     sa \<in> set stats \<and> stat_Model sa = ''a'' \<and>
     RunCount sa = 3 \<and> FailureCount sa = 1 \<and> SuccessCount sa = 2 \<and>
     calculateStatistics [run_of ''a'' 80 [], run_of ''a'' 0 ''timeout'', run_of ''a'' 80 []]
       = Some [sa] \<and>
     map_option (map distribution) (calculateStatistics [run_of ''a'' 80 [], run_of ''a'' 80 []])
       = Some [distribution sa]"
proof -
  let ?rs = "[run_of ''a'' 80 [], run_of ''b'' 50 [], run_of ''a'' 0 ''timeout'',
              run_of ''a'' 80 []]"
  obtain stats where c: "calculateStatistics ?rs = Some stats"
    and m: "stat_Model ` set stats = Model ` set ?rs"
    and all: "\<forall>stat\<in>set stats.
        let own = filter (\<lambda>r. Model r = stat_Model stat) ?rs;
            ok = filter (\<lambda>r. Error r = []) own
        in RunCount stat = length own \<and>
           FailureCount stat = length (filter (\<lambda>r. Error r \<noteq> []) own) \<and>
           SuccessCount stat = length ok \<and>
           SuccessCount stat + FailureCount stat = RunCount stat \<and>
           calculateStatistics own = Some [stat] \<and>
           (ok = [] \<longrightarrow> distribution stat = ((0, 0, 0, 0), (0, 0, 0), 0, [])) \<and>
           (ok \<noteq> [] \<longrightarrow>
              map_option (map distribution) (calculateStatistics ok) = Some [distribution stat])"
    using calculateStatistics_isolation [of ?rs] by blast
  have "''a'' \<in> stat_Model ` set stats" unfolding m by (simp add: run_of_def)
  then obtain sa where sa: "sa \<in> set stats" "stat_Model sa = ''a''" by auto
  show ?thesis
    using c sa all [rule_format, OF sa(1)] by (auto simp: Let_def run_of_def)
qed

text \<open>
  C10: for a model with a successful run, \<open>StdDev\<close> is the sample standard deviation of the
  total scores of its successful runs (0 for fewer than two), \<open>Consistency\<close> is
  \<open>100 - StdDev / AvgScore * 100\<close> raised to 0 where it is negative when the average is
  positive, and 0 when the average is 0; for every model it lies between 0 and 100.
\<close>

theorem Consistency_clamped:
  "\<exists>stats. calculateStatistics results = Some stats \<and>
     stat_Model ` set stats = Model ` set results \<and>
     (\<forall>stat\<in>set stats.
        let scores = map TotalScore
              (filter (\<lambda>r. Error r = []) (filter (\<lambda>r. Model r = stat_Model stat) results))
        in (scores \<noteq> [] \<longrightarrow>
              AvgScore stat = mean scores \<and>
              StdDev stat = sample_stddev scores \<and>
              (length scores < 2 \<longrightarrow> StdDev stat = 0) \<and>
              (AvgScore stat > 0 \<longrightarrow>
                 Consistency stat = max 0 (100 - StdDev stat / AvgScore stat * 100)) \<and>
              (AvgScore stat = 0 \<longrightarrow> Consistency stat = 0)) \<and>
           0 \<le> Consistency stat \<and> Consistency stat \<le> 100)"
proof -
  obtain stats where c: "calculateStatistics results = Some stats"
    using calculateStatistics_closed [of results] by simp
  have s: "succeeded = (\<lambda>r. Error r = [])" by (simp add: fun_eq_iff succeeded_def)
  have per: "(scores \<noteq> [] \<longrightarrow>
              AvgScore stat = mean scores \<and>
              StdDev stat = sample_stddev scores \<and>
              (length scores < 2 \<longrightarrow> StdDev stat = 0) \<and>
              (AvgScore stat > 0 \<longrightarrow>
                 Consistency stat = max 0 (100 - StdDev stat / AvgScore stat * 100)) \<and>
              (AvgScore stat = 0 \<longrightarrow> Consistency stat = 0)) \<and>
           0 \<le> Consistency stat \<and> Consistency stat \<le> 100"
    if mem: "stat \<in> set stats"
      and sc: "scores = map TotalScore
              (filter (\<lambda>r. Error r = []) (filter (\<lambda>r. Model r = stat_Model stat) results))"
    for stat scores
  proof (cases "scores = []")
    case True
    then have "distribution stat = ((0, 0, 0, 0), (0, 0, 0), 0, [])"
      using calculateStatistics_member_fields(5) [OF c mem, unfolded s] sc by simp
    then show ?thesis using True by (simp add: distribution_def)
  next
    case False
    then have f: "AvgScore stat = mean scores \<and> StdDev stat = sample_stddev scores \<and>
           Consistency stat =
             (if AvgScore stat > 0 then max 0 (100 - StdDev stat / AvgScore stat * 100) else 0)"
      using calculateStatistics_member_fields(7) [OF c mem, unfolded s] sc by simp
    have sd: "0 \<le> StdDev stat" using f by (simp add: sample_stddev_nonneg)
    have "0 \<le> Consistency stat \<and> Consistency stat \<le> 100"
    proof (cases "0 < AvgScore stat")
      case True
      define x where "x = StdDev stat / AvgScore stat * 100"
      have x: "0 \<le> x"
        unfolding x_def using sd True by (intro mult_nonneg_nonneg divide_nonneg_nonneg) simp_all
      have cons: "Consistency stat = max 0 (100 - x)" using f True by (simp add: x_def)
      have "100 - x \<le> 100" using x by linarith
      then have "max 0 (100 - x) \<le> 100" by (intro max.boundedI) simp_all
      moreover have "0 \<le> max 0 (100 - x)" by (rule max.cobounded1)
      ultimately show ?thesis unfolding cons by blast
    next
      case False
      then show ?thesis using f by simp
    qed
    then have "0 \<le> Consistency stat" "Consistency stat \<le> 100" by blast+
    moreover have "length scores < 2 \<longrightarrow> StdDev stat = 0"
      using f by (simp add: sample_stddev_def)
    ultimately show ?thesis using f by auto
  qed
  show ?thesis
  proof (intro exI conjI ballI)
    show "calculateStatistics results = Some stats" by (rule c)
    show "stat_Model ` set stats = Model ` set results"
      by (rule calculateStatistics_members(1) [OF c])
    fix stat
    assume "stat \<in> set stats"
    then show "let scores = map TotalScore
              (filter (\<lambda>r. Error r = []) (filter (\<lambda>r. Model r = stat_Model stat) results))
        in (scores \<noteq> [] \<longrightarrow>
              AvgScore stat = mean scores \<and>
              StdDev stat = sample_stddev scores \<and>
              (length scores < 2 \<longrightarrow> StdDev stat = 0) \<and>
              (AvgScore stat > 0 \<longrightarrow>
                 Consistency stat = max 0 (100 - StdDev stat / AvgScore stat * 100)) \<and>
              (AvgScore stat = 0 \<longrightarrow> Consistency stat = 0)) \<and>
           0 \<le> Consistency stat \<and> Consistency stat \<le> 100"
      unfolding Let_def by (rule per [OF _ refl])
  qed
qed

theorem Consistency_clamped_witness:
  "\<exists>stats sa.
     calculateStatistics [run_of ''a'' 60 [], run_of ''b'' 50 [], run_of ''a'' 0 ''timeout'',
                          run_of ''a'' 100 []] = Some stats \<and>
     sa \<in> set stats \<and> stat_Model sa = ''a'' \<and>
     AvgScore sa = 80 \<and> StdDev sa = sqrt 800 \<and>
     Consistency sa = max 0 (100 - sqrt 800 / 80 * 100) \<and>
     0 \<le> Consistency sa \<and> Consistency sa \<le> 100"
proof -
  let ?rs = "[run_of ''a'' 60 [], run_of ''b'' 50 [], run_of ''a'' 0 ''timeout'',
              run_of ''a'' 100 []]"
  obtain stats where c: "calculateStatistics ?rs = Some stats"
    and m: "stat_Model ` set stats = Model ` set ?rs"
    and all: "\<forall>stat\<in>set stats.
        let scores = map TotalScore
              (filter (\<lambda>r. Error r = []) (filter (\<lambda>r. Model r = stat_Model stat) ?rs))
        in (scores \<noteq> [] \<longrightarrow>
              AvgScore stat = mean scores \<and>
              StdDev stat = sample_stddev scores \<and>
              (length scores < 2 \<longrightarrow> StdDev stat = 0) \<and>
              (AvgScore stat > 0 \<longrightarrow>
                 Consistency stat = max 0 (100 - StdDev stat / AvgScore stat * 100)) \<and>
              (AvgScore stat = 0 \<longrightarrow> Consistency stat = 0)) \<and>
           0 \<le> Consistency stat \<and> Consistency stat \<le> 100"
    using Consistency_clamped [of ?rs] by blast
  have "''a'' \<in> stat_Model ` set stats" unfolding m by (simp add: run_of_def)
  then obtain sa where sa: "sa \<in> set stats" "stat_Model sa = ''a''" by auto
  have "mean [60, 100] = 80" "sample_stddev [60, 100] = sqrt 800"
    by (simp_all add: mean_def sample_stddev_def)
  then show ?thesis
    using c sa all [rule_format, OF sa(1)] by (auto simp: Let_def run_of_def)
qed

section \<open>Acquiring the snapshots\<close>

lemma calculateStatistics_Nil: "calculateStatistics [] = Some []"
  by (simp add: calculateStatistics_def)

lemma Run_static_empty:
  assumes "Mode config = ''static''" "LoadSnapshots world (DatasetDir config) = Inr []"
  shows "Run world config = Some (Inl (NoSnapshotsFound (DatasetDir config)))"
  using assms by (simp add: Run_def get_snapshots_def)

lemma Run_static_without_snapshots:
  "Run offline (bench_config ''static'' []) = Some (Inl (NoSnapshotsFound ''datasets/snapshots''))"
  by (simp add: Run_def get_snapshots_def LoadSnapshots_def HasSuffix_def offline_def
      bench_config_def)

lemma Run_realtime_never_fails:
  assumes "Mode config \<noteq> ''static''"
  shows "\<exists>report. Run world config = Some (Inr report) \<and>
           Snapshots report =
             List.map_filter (\<lambda>symbol.
               case CaptureSnapshot world symbol (config_Interval config) (KlineCount config) of
                 Inl err \<Rightarrow> None | Inr snapshot \<Rightarrow> Some snapshot) (Symbols config)"
proof -
  let ?cap = "\<lambda>symbol. case CaptureSnapshot world symbol (config_Interval config) (KlineCount config) of
                 Inl err \<Rightarrow> None | Inr snapshot \<Rightarrow> Some snapshot"
  have f: "foldl (\<lambda>snapshots symbol.
                      case CaptureSnapshot world symbol (config_Interval config) (KlineCount config) of
                        Inl err \<Rightarrow> snapshots
                      | Inr snapshot \<Rightarrow> snapshots @ [snapshot]) acc syms
           = acc @ List.map_filter ?cap syms" for acc syms
    by (induction syms arbitrary: acc) (auto simp: List.map_filter_simps split: sum.splits)
  obtain stats where "calculateStatistics (concat (map (\<lambda>snapshot.
                  concat (map (\<lambda>runIdx.
                    map (\<lambda>modelCfg. runSingleBenchmark world snapshot modelCfg runIdx)
                      (Models config))
                    [0..Runs config - 1]))
                  (List.map_filter ?cap (Symbols config)))) = Some stats"
    using calculateStatistics_closed by blast
  then show ?thesis
    using assms by (simp add: Run_def get_snapshots_def f Let_def)
qed

text \<open>
  C7: \<open>Engine.Run\<close> should return an error whenever no snapshot is acquired, in static and in
  realtime mode, and pass over a symbol whose capture fails. The static branch does return
  the error and the realtime loop does pass over the symbol, as the lemmas above say. The
  realtime branch has no test for an empty list: when the capture of every symbol fails,
  \<open>Run\<close> returns a report without snapshots, results, statistics and leaderboard, and no
  error.
\<close>

theorem Run_realtime_without_snapshots:
  "Run offline (bench_config ''realtime'' [''BTCUSDT'']) =
     Some (Inr \<lparr>Version = ''1.0.0'', Config = bench_config ''realtime'' [''BTCUSDT''],
                 Snapshots = [], Results = [], Statistics = [], Leaderboard = []\<rparr>)"
  by (simp add: Run_def get_snapshots_def CaptureSnapshot_def offline_def bench_config_def
      calculateStatistics_Nil calculateLeaderboard_def)

section \<open>Missing fields of a reply\<close>

lemma get_set_field:
  "tag \<in> set indicator_tags \<Longrightarrow>
   get_field k (set_field tag x r) = (if k = tag then x else get_field k r)"
  by (auto simp: indicator_tags_def get_field_def set_field_def)

lemma field_for_key_tag: "key \<in> set indicator_tags \<Longrightarrow> field_for_key foldName key = Some key"
  by (simp add: field_for_key_def)

lemma store_members:
  assumes "\<forall>(k, v)\<in>set members. k \<in> set indicator_tags \<and> in_float64_range v"
  shows "\<exists>r'. foldl (store_member foldName ParseFloat) (None, r) members = (None, r') \<and>
           (\<forall>k. k \<notin> fst ` set members \<longrightarrow> get_field k r' = get_field k r)"
  using assms
proof (induction members rule: rev_induct)
  case Nil
  then show ?case by simp
next
  case (snoc m ms)
  obtain key v where m: "m = (key, v)" by (cases m)
  obtain x where kv: "key \<in> set indicator_tags" "v = JNumber x" "\<bar>x\<bar> < float64_limit"
    using snoc.prems m by (auto simp: in_float64_range_def split: json.splits)
  obtain r' where r': "foldl (store_member foldName ParseFloat) (None, r) ms = (None, r')"
    "\<forall>k. k \<notin> fst ` set ms \<longrightarrow> get_field k r' = get_field k r"
    using snoc.IH snoc.prems by auto
  have step: "foldl (store_member foldName ParseFloat) (None, r) (ms @ [m])
              = (None, set_field key (ParseFloat x) r')"
    using r'(1) m kv by (simp add: field_for_key_tag)
  have "get_field k (set_field key (ParseFloat x) r') = get_field k r"
    if "k \<notin> fst ` set (ms @ [m])" for k
    using r'(2) m that by (simp add: get_set_field [OF kv(1)])
  then show ?case using step by blast
qed

lemma huge_out_of_range: "\<not> \<bar>huge_value\<bar> < float64_limit"
proof -
  define L where "L = (2::real) ^ 1024"
  define S where "S = (2::real) ^ 970"
  have "(2::real) ^ 1024 \<le> 2 ^ (3 * 999)" by (rule power_increasing) simp_all
  also have "\<dots> = (2 ^ 3) ^ 999" by (rule power_mult)
  also have "\<dots> \<le> (10::real) ^ 999" by (rule power_mono) simp_all
  finally have LH: "L \<le> huge_value" unfolding L_def huge_value_def .
  have S: "0 < S" unfolding S_def by (rule zero_less_power) simp
  have lim: "float64_limit = L - S" by (simp only: float64_limit_def L_def S_def)
  have "0 \<le> L" unfolding L_def by (rule zero_le_power) simp
  then have "\<bar>huge_value\<bar> = huge_value" using LH by (intro abs_of_nonneg) linarith
  then show ?thesis using LH S lim by linarith
qed

lemma float64_limit_large: "1024 \<le> float64_limit"
proof -
  define M where "M = (2::real) ^ 1023"
  define S where "S = (2::real) ^ 970"
  have "(2::real) ^ 970 \<le> 2 ^ 1023" by (rule power_increasing) simp_all
  then have SM: "S \<le> M" unfolding S_def M_def .
  have "(2::real) ^ 10 \<le> 2 ^ 1023" by (rule power_increasing) simp_all
  then have M: "1024 \<le> M" unfolding M_def by simp
  have "(2::real) ^ 1024 = 2 ^ Suc 1023" by simp
  also have "\<dots> = 2 * 2 ^ 1023" by (rule power_Suc)
  finally have "float64_limit = 2 * M - S" by (simp only: float64_limit_def M_def S_def)
  then show ?thesis using SM M by linarith
qed

text \<open>
  C9, as the code has it: when the reply is a valid JSON object that holds any of the ten
  tags, or none, with numbers that \<^verbatim>\<open>float64\<close> can hold, \<open>ParseIndicatorResponse\<close> returns
  a result and no error, and every field whose tag the object lacks is 0.
\<close>

theorem ParseIndicatorResponse_missing_fields:
  assumes "valid response = Some (JObject members)"
    and "\<forall>(k, v)\<in>set members. k \<in> set indicator_tags \<and> in_float64_range v"
  shows "\<exists>result. ParseIndicatorResponse valid foldName ParseFloat response = Inr result \<and>
           (\<forall>tag\<in>set indicator_tags.
              tag \<notin> fst ` set members \<longrightarrow> get_field tag result = 0)"
proof -
  obtain r' where
    r': "foldl (store_member foldName ParseFloat) (None, zero_IndicatorResult) members = (None, r')"
    "\<forall>k. k \<notin> fst ` set members \<longrightarrow> get_field k r' = get_field k zero_IndicatorResult"
    using store_members [OF assms(2)] by blast
  have z: "get_field k zero_IndicatorResult = 0" for k
    by (simp add: get_field_def zero_IndicatorResult_def)
  have "ParseIndicatorResponse valid foldName ParseFloat response = Inr r'"
    using assms(1) r'(1) by (simp add: ParseIndicatorResponse_def Unmarshal_def)
  moreover have "get_field tag r' = 0" if "tag \<notin> fst ` set members" for tag
    using r'(2) that by (simp add: z)
  ultimately show ?thesis by blast
qed

theorem ParseIndicatorResponse_missing_fields_witness:
  "\<exists>result. ParseIndicatorResponse valid_json id id partial_reply = Inr result \<and>
     EMA12 result = 0 \<and> EMA26 result = 0 \<and> MACD result = 0 \<and> BOLLUp result = 0 \<and>
     BOLLMid result = 0 \<and> BOLLLow result = 0 \<and> ATR14 result = 0 \<and> VolumeMA result = 0"
proof -
  have v: "valid_json partial_reply = Some (JObject [(''ma20'', JNumber 101.5), (''rsi14'', JNumber 55)])"
    by (simp add: valid_json_def partial_reply_def huge_reply_def)
  have m: "\<forall>(k, v)\<in>set [(''ma20'', JNumber 101.5), (''rsi14'', JNumber 55)].
             k \<in> set indicator_tags \<and> in_float64_range v"
    using float64_limit_large by (simp add: indicator_tags_def in_float64_range_def)
  obtain result where r: "ParseIndicatorResponse valid_json id id partial_reply = Inr result"
    "\<forall>tag\<in>set indicator_tags.
       tag \<notin> fst ` set [(''ma20'', JNumber 101.5), (''rsi14'', JNumber 55)] \<longrightarrow>
       get_field tag result = 0"
    using ParseIndicatorResponse_missing_fields
        [where valid = valid_json and response = partial_reply and foldName = id
           and ParseFloat = id, OF v m]
    by blast
  show ?thesis
    using r by (auto simp: indicator_tags_def get_field_def)
qed

text \<open>
  A number beyond \<^verbatim>\<open>float64\<close> is a numeric value of a valid JSON object, and the reply that
  holds one is refused: both calls of \<^verbatim>\<open>json.Unmarshal\<close> return the type error.
\<close>

theorem ParseIndicatorResponse_number_out_of_range:
  "ParseIndicatorResponse valid_json id id huge_reply
     = Inl (ParseJSONFailed (UnmarshalTypeError ''number''))"
proof -
  have k: "field_for_key id ''ma20'' = Some ''ma20''"
    by (simp add: field_for_key_def indicator_tags_def)
  have u: "Unmarshal valid_json id id huge_reply r
           = (Some (UnmarshalTypeError ''number''), set_field ''ma20'' (get_field ''ma20'' r) r)" for r
    by (simp add: Unmarshal_def valid_json_def k huge_out_of_range)
  have f: "FindString_ma20 huge_reply = huge_reply"
    by (simp add: huge_reply_def brace_def)
  have ne: "huge_reply \<noteq> []" by (simp add: huge_reply_def)
  show ?thesis
    by (simp add: ParseIndicatorResponse_def u f ne)
qed

end
